theory Spec2Isabelle
  imports Main
begin

section \<open>Data model of the group service\<close>

text \<open>
  The service of \<^verbatim>\<open>services/group.py\<close> works on six tables through an ORM session.
  A table is the list of its rows in storage order; \<^verbatim>\<open>.first()\<close> is the first matching
  row of that list and \<^verbatim>\<open>.all()\<close> the sublist of the matching rows. UUIDs are natural
  numbers.
\<close>

text \<open>
  Modelled from the spec: the ORM classes \<^verbatim>\<open>Group\<close>, \<^verbatim>\<open>GroupMember\<close>,
  \<^verbatim>\<open>Invite\<close>, \<^verbatim>\<open>Thesis\<close>, \<^verbatim>\<open>Information\<close> and \<^verbatim>\<open>StudentInfo\<close> are
  declared in \<^verbatim>\<open>models/model.py\<close>, which is not among the sources. The records
  below have the columns of the spec's data model, which are the columns the service
  reads or writes; an invite also has an id, which tells its rows apart. The quantity and
  the status are Python integers.
\<close>

type_synonym uuid = nat

record group =
  g_id :: uuid
  g_name :: string
  g_leader_id :: uuid
  g_quantity :: int
  g_thesis_id :: "uuid option"

record group_member =
  m_group_id :: uuid
  m_student_id :: uuid
  m_is_leader :: bool

record invite =
  i_id :: uuid
  i_group_id :: uuid

record thesis =
  t_id :: uuid
  t_status :: int

record information =
  inf_user_id :: uuid
  inf_first_name :: string
  inf_last_name :: string

record student_info =
  si_user_id :: uuid
  si_student_code :: string

record store =
  groups :: "group list"
  members :: "group_member list"
  invites :: "invite list"
  theses :: "thesis list"
  informations :: "information list"
  student_infos :: "student_info list"

text \<open>
  The session \<^verbatim>\<open>db\<close>: \<open>pending\<close> is what the open transaction sees (queries read it,
  \<^verbatim>\<open>db.add\<close>, \<^verbatim>\<open>db.delete\<close> and attribute assignments change it), \<open>committed\<close> is
  the durable store, and \<open>commits\<close> counts the calls of \<^verbatim>\<open>db.commit()\<close>.
  \<^verbatim>\<open>db.flush()\<close> and \<^verbatim>\<open>db.refresh(obj)\<close> leave all three as they are.
\<close>

record session =
  pending :: store
  committed :: store
  commits :: nat

text \<open>
  The failures: an \<^verbatim>\<open>HTTPException\<close> with its status code (the spec calls 404 NotFound,
  403 Forbidden and 400 Conflict; the detail message is not modelled), and the
  \<^verbatim>\<open>AttributeError\<close> Python raises on an attribute assignment to \<^verbatim>\<open>None\<close>.
\<close>

datatype error =
  HTTP_404_NOT_FOUND
| HTTP_403_FORBIDDEN
| HTTP_400_BAD_REQUEST
| AttributeError

subsection \<open>Queries and row identity\<close>

text \<open>
  An ORM object is a row of the session, so \<^verbatim>\<open>query(...).filter(...).first()\<close> is
  modelled by the position of the first matching row; an assignment to a field of the
  object updates the row at that position and \<^verbatim>\<open>db.delete(obj)\<close> removes it.
\<close>

fun first_idx :: "('a \<Rightarrow> bool) \<Rightarrow> 'a list \<Rightarrow> nat option" where
  "first_idx P [] = None"
| "first_idx P (x # xs) = (if P x then Some 0 else map_option Suc (first_idx P xs))"

definition remove_nth :: "nat \<Rightarrow> 'a list \<Rightarrow> 'a list" where
  "remove_nth i xs = take i xs @ drop (Suc i) xs"

definition db_commit :: "session \<Rightarrow> session" where
  "db_commit db = db\<lparr>committed := pending db, commits := Suc (commits db)\<rparr>"

definition set_groups :: "group list \<Rightarrow> session \<Rightarrow> session" where
  "set_groups gs db = db\<lparr>pending := (pending db)\<lparr>groups := gs\<rparr>\<rparr>"

definition set_members :: "group_member list \<Rightarrow> session \<Rightarrow> session" where
  "set_members ms db = db\<lparr>pending := (pending db)\<lparr>members := ms\<rparr>\<rparr>"

definition set_invites :: "invite list \<Rightarrow> session \<Rightarrow> session" where
  "set_invites vs db = db\<lparr>pending := (pending db)\<lparr>invites := vs\<rparr>\<rparr>"

definition set_theses :: "thesis list \<Rightarrow> session \<Rightarrow> session" where
  "set_theses ts db = db\<lparr>pending := (pending db)\<lparr>theses := ts\<rparr>\<rparr>"

section \<open>The operations\<close>

definition is_member_of_any_group :: "session \<Rightarrow> uuid \<Rightarrow> bool" where
  "is_member_of_any_group db user_id =
     (first_idx (\<lambda>m. m_student_id m = user_id) (members (pending db)) \<noteq> None)"

text \<open>
  \<open>create_group\<close>: the primary key of the new row is generated when the row is
  flushed; it is the parameter \<open>new_id\<close>.
\<close>

definition create_group :: "session \<Rightarrow> uuid \<Rightarrow> string \<Rightarrow> uuid \<Rightarrow> (error + group) \<times> session" where
  "create_group db new_id name user_id =
     (case first_idx (\<lambda>m. m_student_id m = user_id) (members (pending db)) of
        Some _ \<Rightarrow> (Inl HTTP_400_BAD_REQUEST, db)
      | None \<Rightarrow>
          let new_group = \<lparr>g_id = new_id, g_name = name, g_leader_id = user_id,
                           g_quantity = 1, g_thesis_id = None\<rparr>;
              db1 = set_groups (groups (pending db) @ [new_group]) db;
              group_leader = \<lparr>m_group_id = g_id new_group, m_student_id = user_id,
                              m_is_leader = True\<rparr>;
              db2 = set_members (members (pending db1) @ [group_leader]) db1;
              db3 = db_commit db2
          in (Inr new_group, db3))"

definition add_member :: "session \<Rightarrow> uuid \<Rightarrow> uuid \<Rightarrow> uuid \<Rightarrow> (error + group_member) \<times> session" where
  "add_member db group_id student_id leader_id =
     (case first_idx (\<lambda>g. g_id g = group_id) (groups (pending db)) of
        None \<Rightarrow> (Inl HTTP_404_NOT_FOUND, db)
      | Some gi \<Rightarrow>
          let group = groups (pending db) ! gi in
          if g_leader_id group \<noteq> leader_id then (Inl HTTP_403_FORBIDDEN, db)
          else if g_quantity group \<ge> 4 then (Inl HTTP_400_BAD_REQUEST, db)
          else if is_member_of_any_group db student_id then (Inl HTTP_400_BAD_REQUEST, db)
          else
            let new_member = \<lparr>m_group_id = group_id, m_student_id = student_id,
                              m_is_leader = False\<rparr>;
                db1 = set_members (members (pending db) @ [new_member]) db;
                db2 = set_groups ((groups (pending db1))
                        [gi := (groups (pending db1) ! gi)
                                 \<lparr>g_quantity := g_quantity (groups (pending db1) ! gi) + 1\<rparr>]) db1;
                db3 = db_commit db2
            in (Inr new_member, db3))"

definition remove_member :: "session \<Rightarrow> uuid \<Rightarrow> uuid \<Rightarrow> uuid \<Rightarrow> (error + unit) \<times> session" where
  "remove_member db group_id member_id leader_id =
     (case first_idx (\<lambda>g. g_id g = group_id) (groups (pending db)) of
        None \<Rightarrow> (Inl HTTP_404_NOT_FOUND, db)
      | Some gi \<Rightarrow>
          let group = groups (pending db) ! gi in
          if g_leader_id group \<noteq> leader_id then (Inl HTTP_403_FORBIDDEN, db)
          else if member_id = leader_id then (Inl HTTP_400_BAD_REQUEST, db)
          else
            (case first_idx (\<lambda>m. m_group_id m = group_id \<and> m_student_id m = member_id)
                    (members (pending db)) of
               None \<Rightarrow> (Inl HTTP_404_NOT_FOUND, db)
             | Some mi \<Rightarrow>
                 let db1 = set_members (remove_nth mi (members (pending db))) db;
                     db2 = set_groups ((groups (pending db1))
                             [gi := (groups (pending db1) ! gi)
                                      \<lparr>g_quantity := g_quantity (groups (pending db1) ! gi) - 1\<rparr>]) db1;
                     db3 = db_commit db2
                 in (Inr (), db3)))"

definition get_members :: "session \<Rightarrow> uuid \<Rightarrow> group_member list" where
  "get_members db group_id = filter (\<lambda>m. m_group_id m = group_id) (members (pending db))"

text \<open>
  \<open>transfer_leader\<close>: both member rows are looked up before anything is written, and
  only the new leader's row is tested for \<^verbatim>\<open>None\<close>. When the old leader has no row in
  the group, the first assignment raises \<^verbatim>\<open>AttributeError\<close>. When both lookups find the
  same row, the two assignments hit that one row in turn.
\<close>

definition transfer_leader :: "session \<Rightarrow> uuid \<Rightarrow> uuid \<Rightarrow> uuid \<Rightarrow> (error + unit) \<times> session" where
  "transfer_leader db group_id new_leader_id current_leader_id =
     (case first_idx (\<lambda>g. g_id g = group_id) (groups (pending db)) of
        None \<Rightarrow> (Inl HTTP_404_NOT_FOUND, db)
      | Some gi \<Rightarrow>
          let group = groups (pending db) ! gi in
          if g_leader_id group \<noteq> current_leader_id then (Inl HTTP_403_FORBIDDEN, db)
          else
            let current_leader_member =
                  first_idx (\<lambda>m. m_student_id m = current_leader_id \<and> m_group_id m = group_id)
                    (members (pending db));
                new_leader_member =
                  first_idx (\<lambda>m. m_student_id m = new_leader_id \<and> m_group_id m = group_id)
                    (members (pending db))
            in
            (case new_leader_member of
               None \<Rightarrow> (Inl HTTP_404_NOT_FOUND, db)
             | Some ni \<Rightarrow>
                 (case current_leader_member of
                    None \<Rightarrow> (Inl AttributeError, db)
                  | Some ci \<Rightarrow>
                      let db1 = set_members ((members (pending db))
                                  [ci := (members (pending db) ! ci)\<lparr>m_is_leader := False\<rparr>]) db;
                          db2 = set_members ((members (pending db1))
                                  [ni := (members (pending db1) ! ni)\<lparr>m_is_leader := True\<rparr>]) db1;
                          db3 = set_groups ((groups (pending db2))
                                  [gi := (groups (pending db2) ! gi)
                                           \<lparr>g_leader_id := new_leader_id\<rparr>]) db2;
                          db4 = db_commit db3
                      in (Inr (), db4))))"

definition update_group_name :: "session \<Rightarrow> uuid \<Rightarrow> string \<Rightarrow> uuid \<Rightarrow> (error + group) \<times> session" where
  "update_group_name db group_id new_name user_id =
     (case first_idx (\<lambda>g. g_id g = group_id) (groups (pending db)) of
        None \<Rightarrow> (Inl HTTP_404_NOT_FOUND, db)
      | Some gi \<Rightarrow>
          let group = groups (pending db) ! gi in
          if g_leader_id group \<noteq> user_id then (Inl HTTP_403_FORBIDDEN, db)
          else
            let db1 = set_groups ((groups (pending db))[gi := group\<lparr>g_name := new_name\<rparr>]) db;
                db2 = db_commit db1
            in (Inr (groups (pending db2) ! gi), db2))"

text \<open>
  \<open>delete_group\<close>: \<^verbatim>\<open>if group.thesis_id\<close> is true exactly when the column is not
  \<^verbatim>\<open>None\<close> (a UUID object is always truthy). The two bulk deletes remove every row
  with the group's id; \<^verbatim>\<open>db.delete(group)\<close> removes the row that was looked up.
\<close>

definition delete_group :: "session \<Rightarrow> uuid \<Rightarrow> uuid \<Rightarrow> (error + unit) \<times> session" where
  "delete_group db group_id user_id =
     (case first_idx (\<lambda>g. g_id g = group_id) (groups (pending db)) of
        None \<Rightarrow> (Inl HTTP_404_NOT_FOUND, db)
      | Some gi \<Rightarrow>
          let group = groups (pending db) ! gi in
          if g_leader_id group \<noteq> user_id then (Inl HTTP_403_FORBIDDEN, db)
          else if g_thesis_id group \<noteq> None then (Inl HTTP_400_BAD_REQUEST, db)
          else
            let db1 = set_invites (filter (\<lambda>v. \<not> (i_group_id v = group_id))
                        (invites (pending db))) db;
                db2 = set_members (filter (\<lambda>m. \<not> (m_group_id m = group_id))
                        (members (pending db1))) db1;
                db3 = set_groups (remove_nth gi (groups (pending db2))) db2;
                db4 = db_commit db3
            in (Inr (), db4))"

definition register_thesis_for_group ::
    "session \<Rightarrow> uuid \<Rightarrow> uuid \<Rightarrow> uuid \<Rightarrow> (error + group) \<times> session" where
  "register_thesis_for_group db group_id thesis_id user_id =
     (case first_idx (\<lambda>g. g_id g = group_id) (groups (pending db)) of
        None \<Rightarrow> (Inl HTTP_404_NOT_FOUND, db)
      | Some gi \<Rightarrow>
          let group = groups (pending db) ! gi in
          if g_leader_id group \<noteq> user_id then (Inl HTTP_403_FORBIDDEN, db)
          else if g_thesis_id group \<noteq> None then (Inl HTTP_400_BAD_REQUEST, db)
          else
            (case first_idx (\<lambda>t. t_id t = thesis_id) (theses (pending db)) of
               None \<Rightarrow> (Inl HTTP_404_NOT_FOUND, db)
             | Some ti \<Rightarrow>
                 (case first_idx (\<lambda>g. g_thesis_id g = Some thesis_id) (groups (pending db)) of
                    Some _ \<Rightarrow> (Inl HTTP_400_BAD_REQUEST, db)
                  | None \<Rightarrow>
                      let db1 = set_groups ((groups (pending db))
                                  [gi := group\<lparr>g_thesis_id := Some thesis_id\<rparr>]) db;
                          db2 = set_theses ((theses (pending db1))
                                  [ti := (theses (pending db1) ! ti)\<lparr>t_status := 2\<rparr>]) db1;
                          db3 = db_commit db2
                      in (Inr (groups (pending db3) ! gi), db3))))"

subsection \<open>Read operations\<close>

text \<open>
  Modelled from the spec: the response schemas \<^verbatim>\<open>MemberDetailResponse\<close> and
  \<^verbatim>\<open>GroupWithMembersResponse\<close> are declared in \<^verbatim>\<open>schemas/group.py\<close>, which is
  not among the sources. The records have the fields the service passes to their
  constructors.
\<close>

record member_detail =
  md_user_id :: uuid
  md_full_name :: string
  md_student_code :: string
  md_is_leader :: bool

record group_with_members =
  gw_id :: uuid
  gw_name :: string
  gw_leader_id :: uuid
  gw_members :: "member_detail list"

text \<open>
  The loop over \<^verbatim>\<open>all_members_in_group\<close>, with \<^verbatim>\<open>member_details_list\<close> as the
  accumulator. It is written twice in the source, with the same body, in
  \<^verbatim>\<open>get_all_groups_for_user\<close> and in \<^verbatim>\<open>get_detailed_members_of_group\<close>.
\<close>

fun member_details_loop ::
    "session \<Rightarrow> group_member list \<Rightarrow> member_detail list \<Rightarrow> member_detail list" where
  "member_details_loop db [] member_details_list = member_details_list"
| "member_details_loop db (member # rest) member_details_list =
     (let student_user_id = m_student_id member;
          info = find (\<lambda>i. inf_user_id i = student_user_id) (informations (pending db));
          student_info = find (\<lambda>s. si_user_id s = student_user_id) (student_infos (pending db))
      in if info \<noteq> None \<and> student_info \<noteq> None then
           member_details_loop db rest (member_details_list @
             [\<lparr>md_user_id = student_user_id,
               md_full_name = inf_last_name (the info) @ '' '' @ inf_first_name (the info),
               md_student_code = si_student_code (the student_info),
               md_is_leader = (m_is_leader member \<or> False)\<rparr>])
         else member_details_loop db rest member_details_list)"

fun all_groups_loop ::
    "session \<Rightarrow> group_member list \<Rightarrow> group_with_members list \<Rightarrow> group_with_members list" where
  "all_groups_loop db [] all_groups_list = all_groups_list"
| "all_groups_loop db (membership # rest) all_groups_list =
     (let group_id = m_group_id membership in
      case find (\<lambda>g. g_id g = group_id) (groups (pending db)) of
        None \<Rightarrow> all_groups_loop db rest all_groups_list
      | Some grp \<Rightarrow>
          let all_members_in_group =
                filter (\<lambda>m. m_group_id m = group_id) (members (pending db));
              member_details_list = member_details_loop db all_members_in_group [];
              group_obj = \<lparr>gw_id = g_id grp, gw_name = g_name grp,
                           gw_leader_id = g_leader_id grp,
                           gw_members = member_details_list\<rparr>
          in all_groups_loop db rest (all_groups_list @ [group_obj]))"

definition get_all_groups_for_user :: "session \<Rightarrow> uuid \<Rightarrow> group_with_members list" where
  "get_all_groups_for_user db user_id =
     (let user_memberships = filter (\<lambda>m. m_student_id m = user_id) (members (pending db))
      in if user_memberships = [] then [] else all_groups_loop db user_memberships [])"

definition get_detailed_members_of_group :: "session \<Rightarrow> uuid \<Rightarrow> error + member_detail list" where
  "get_detailed_members_of_group db group_id =
     (case find (\<lambda>g. g_id g = group_id) (groups (pending db)) of
        None \<Rightarrow> Inl HTTP_404_NOT_FOUND
      | Some grp \<Rightarrow>
          let all_members_in_group =
                filter (\<lambda>m. m_group_id m = group_id) (members (pending db))
          in Inr (member_details_loop db all_members_in_group []))"

definition get_group_with_detailed_members :: "session \<Rightarrow> uuid \<Rightarrow> error + group_with_members" where
  "get_group_with_detailed_members db group_id =
     (case find (\<lambda>g. g_id g = group_id) (groups (pending db)) of
        None \<Rightarrow> Inl HTTP_404_NOT_FOUND
      | Some grp \<Rightarrow>
          (case get_detailed_members_of_group db group_id of
             Inl e \<Rightarrow> Inl e
           | Inr members_list \<Rightarrow>
               Inr \<lparr>gw_id = g_id grp, gw_name = g_name grp,
                    gw_leader_id = g_leader_id grp, gw_members = members_list\<rparr>))"

section \<open>Calls, requests and reachable stores\<close>

text \<open>
  The seven write operations as one type of calls. \<open>call\<close> runs one of them on a
  session and returns the failure raised, if any, with the session it leaves.
\<close>

datatype op =
  CreateGroup uuid string uuid
| AddMember uuid uuid uuid
| RemoveMember uuid uuid uuid
| TransferLeader uuid uuid uuid
| UpdateGroupName uuid string uuid
| DeleteGroup uuid uuid
| RegisterThesis uuid uuid uuid

definition failure :: "(error + 'a) \<times> session \<Rightarrow> error option \<times> session" where
  "failure r = (case fst r of Inl e \<Rightarrow> (Some e, snd r) | Inr _ \<Rightarrow> (None, snd r))"

fun call :: "op \<Rightarrow> session \<Rightarrow> error option \<times> session" where
  "call (CreateGroup new_id name user_id) db = failure (create_group db new_id name user_id)"
| "call (AddMember group_id student_id leader_id) db =
     failure (add_member db group_id student_id leader_id)"
| "call (RemoveMember group_id member_id leader_id) db =
     failure (remove_member db group_id member_id leader_id)"
| "call (TransferLeader group_id new_leader_id current_leader_id) db =
     failure (transfer_leader db group_id new_leader_id current_leader_id)"
| "call (UpdateGroupName group_id new_name user_id) db =
     failure (update_group_name db group_id new_name user_id)"
| "call (DeleteGroup group_id user_id) db = failure (delete_group db group_id user_id)"
| "call (RegisterThesis group_id thesis_id user_id) db =
     failure (register_thesis_for_group db group_id thesis_id user_id)"

text \<open>
  A request opens a session on the durable store, runs one call and leaves what was
  committed. The store generates primary keys, so a \<open>CreateGroup\<close> whose key is in use
  is not a request the service can see. The tables the service only reads or bulk-deletes
  (invites, theses, profiles) are written by other modules: \<open>External\<close>.
\<close>

definition begin_session :: "store \<Rightarrow> session" where
  "begin_session st = \<lparr>pending = st, committed = st, commits = 0\<rparr>"

datatype event =
  Call op
| External "invite list" "thesis list" "information list" "student_info list"

fun key_is_fresh :: "op \<Rightarrow> store \<Rightarrow> bool" where
  "key_is_fresh (CreateGroup new_id name user_id) st = (new_id \<notin> set (map g_id (groups st)))"
| "key_is_fresh _ st = True"

fun step :: "event \<Rightarrow> store \<Rightarrow> store option" where
  "step (Call c) st =
     (if key_is_fresh c st then Some (committed (snd (call c (begin_session st)))) else None)"
| "step (External vs ts infs sis) st =
     Some (st\<lparr>invites := vs, theses := ts, informations := infs, student_infos := sis\<rparr>)"

fun run :: "event list \<Rightarrow> store \<Rightarrow> store option" where
  "run [] st = Some st"
| "run (e # es) st = (case step e st of None \<Rightarrow> None | Some st' \<Rightarrow> run es st')"

definition initial :: "store \<Rightarrow> bool" where
  "initial st = (groups st = [] \<and> members st = [])"

section \<open>Properties of a store\<close>

text \<open>
  The properties of the group and member tables that the service maintains, and the ones
  that make them inductive: group keys are unique (a primary key) and every member row
  belongs to a group that exists.
\<close>

definition keys_distinct :: "store \<Rightarrow> bool" where
  "keys_distinct st = distinct (map g_id (groups st))"

definition members_reference_groups :: "store \<Rightarrow> bool" where
  "members_reference_groups st =
     (\<forall>m\<in>set (members st). m_group_id m \<in> g_id ` set (groups st))"

definition one_group_per_student :: "store \<Rightarrow> bool" where
  "one_group_per_student st = distinct (map m_student_id (members st))"

definition quantity_is_member_count :: "store \<Rightarrow> bool" where
  "quantity_is_member_count st =
     (\<forall>g\<in>set (groups st).
        g_quantity g = int (length (filter (\<lambda>m. m_group_id m = g_id g) (members st))))"

definition leader_flags_match :: "store \<Rightarrow> bool" where
  "leader_flags_match st =
     (\<forall>g\<in>set (groups st). \<forall>m\<in>set (members st).
        m_group_id m = g_id g \<longrightarrow> (m_is_leader m \<longleftrightarrow> m_student_id m = g_leader_id g))"

definition leader_is_member :: "store \<Rightarrow> bool" where
  "leader_is_member st =
     (\<forall>g\<in>set (groups st). \<exists>m\<in>set (members st).
        m_group_id m = g_id g \<and> m_student_id m = g_leader_id g)"

definition consistent :: "store \<Rightarrow> bool" where
  "consistent st =
     (keys_distinct st \<and> members_reference_groups st \<and> one_group_per_student st \<and>
      quantity_is_member_count st \<and> leader_flags_match st \<and> leader_is_member st)"

text \<open>The leaders of a group: the students of its member rows with \<open>is_leader = True\<close>.\<close>

definition leaders_of :: "store \<Rightarrow> uuid \<Rightarrow> uuid list" where
  "leaders_of st group_id =
     map m_student_id (filter (\<lambda>m. m_group_id m = group_id \<and> m_is_leader m) (members st))"

subsection \<open>The member list as the spec describes it\<close>

text \<open>
  The detail list of a group, written as a join: the member rows of the group whose
  student has a row in both profile tables, each with the name and the code of the first
  profile rows of the student.
\<close>

definition spec_has_information :: "store \<Rightarrow> uuid \<Rightarrow> bool" where
  "spec_has_information st user_id = (\<exists>i\<in>set (informations st). inf_user_id i = user_id)"

definition spec_has_student_info :: "store \<Rightarrow> uuid \<Rightarrow> bool" where
  "spec_has_student_info st user_id = (\<exists>s\<in>set (student_infos st). si_user_id s = user_id)"

definition spec_detail :: "store \<Rightarrow> group_member \<Rightarrow> member_detail" where
  "spec_detail st m =
     (let info = the (find (\<lambda>i. inf_user_id i = m_student_id m) (informations st));
          student_info = the (find (\<lambda>s. si_user_id s = m_student_id m) (student_infos st))
      in \<lparr>md_user_id = m_student_id m,
          md_full_name = inf_last_name info @ '' '' @ inf_first_name info,
          md_student_code = si_student_code student_info,
          md_is_leader = m_is_leader m\<rparr>)"

definition spec_details_of_group :: "store \<Rightarrow> uuid \<Rightarrow> member_detail list" where
  "spec_details_of_group st group_id =
     map (spec_detail st)
       (filter (\<lambda>m. m_group_id m = group_id \<and> spec_has_information st (m_student_id m) \<and>
                    spec_has_student_info st (m_student_id m))
          (members st))"

definition spec_entry :: "store \<Rightarrow> group_member \<Rightarrow> group_with_members" where
  "spec_entry st membership =
     (let grp = the (find (\<lambda>g. g_id g = m_group_id membership) (groups st))
      in \<lparr>gw_id = g_id grp, gw_name = g_name grp, gw_leader_id = g_leader_id grp,
          gw_members = spec_details_of_group st (m_group_id membership)\<rparr>)"

section \<open>Example stores\<close>

text \<open>
  A store with two groups: group 1 of users 10 (leader) and 11, and the full group 2 of
  users 20 (leader), 21, 22 and 23, which holds thesis 50. User 10 has both profile rows,
  user 11 only the \<^verbatim>\<open>Information\<close> row.
\<close>

definition ex_store :: store where
  "ex_store =
     \<lparr>groups =
        [\<lparr>g_id = 1, g_name = ''G1'', g_leader_id = 10, g_quantity = 2, g_thesis_id = None\<rparr>,
         \<lparr>g_id = 2, g_name = ''G2'', g_leader_id = 20, g_quantity = 4, g_thesis_id = Some 50\<rparr>],
      members =
        [\<lparr>m_group_id = 1, m_student_id = 10, m_is_leader = True\<rparr>,
         \<lparr>m_group_id = 1, m_student_id = 11, m_is_leader = False\<rparr>,
         \<lparr>m_group_id = 2, m_student_id = 20, m_is_leader = True\<rparr>,
         \<lparr>m_group_id = 2, m_student_id = 21, m_is_leader = False\<rparr>,
         \<lparr>m_group_id = 2, m_student_id = 22, m_is_leader = False\<rparr>,
         \<lparr>m_group_id = 2, m_student_id = 23, m_is_leader = False\<rparr>],
      invites = [\<lparr>i_id = 100, i_group_id = 1\<rparr>, \<lparr>i_id = 101, i_group_id = 2\<rparr>,
                 \<lparr>i_id = 102, i_group_id = 1\<rparr>],
      theses = [\<lparr>t_id = 50, t_status = 2\<rparr>, \<lparr>t_id = 51, t_status = 1\<rparr>],
      informations =
        [\<lparr>inf_user_id = 10, inf_first_name = ''An'', inf_last_name = ''Tran''\<rparr>,
         \<lparr>inf_user_id = 11, inf_first_name = ''Binh'', inf_last_name = ''Le''\<rparr>],
      student_infos = [\<lparr>si_user_id = 10, si_student_code = ''SV010''\<rparr>]\<rparr>"

definition ex_db :: session where
  "ex_db = begin_session ex_store"

text \<open>The same store after thesis 50 was removed from the thesis table by another module.\<close>

definition ex_store_no_thesis :: store where
  "ex_store_no_thesis = ex_store\<lparr>theses := [\<lparr>t_id = 51, t_status = 1\<rparr>]\<rparr>"

text \<open>An empty store with one open thesis, and the trace of the spec's example on it.\<close>

definition ex_empty :: store where
  "ex_empty = \<lparr>groups = [], members = [], invites = [],
                theses = [\<lparr>t_id = 50, t_status = 1\<rparr>], informations = [], student_infos = []\<rparr>"

definition ex_trace :: "event list" where
  "ex_trace =
     [Call (CreateGroup 1 ''G1'' 10), Call (AddMember 1 11 10), Call (RemoveMember 1 10 10),
      Call (TransferLeader 1 11 10), Call (RemoveMember 1 10 11)]"

text \<open>The store the trace ends in, and that store after user 12 was added to group 1.\<close>

definition ex_final :: store where
  "ex_final =
     \<lparr>groups = [\<lparr>g_id = 1, g_name = ''G1'', g_leader_id = 11, g_quantity = 1,
                  g_thesis_id = None\<rparr>],
      members = [\<lparr>m_group_id = 1, m_student_id = 11, m_is_leader = True\<rparr>],
      invites = [], theses = [\<lparr>t_id = 50, t_status = 1\<rparr>], informations = [],
      student_infos = []\<rparr>"

definition ex_after_add :: store where
  "ex_after_add =
     \<lparr>groups = [\<lparr>g_id = 1, g_name = ''G1'', g_leader_id = 11, g_quantity = 2,
                  g_thesis_id = None\<rparr>],
      members = [\<lparr>m_group_id = 1, m_student_id = 11, m_is_leader = True\<rparr>,
                 \<lparr>m_group_id = 1, m_student_id = 12, m_is_leader = False\<rparr>],
      invites = [], theses = [\<lparr>t_id = 50, t_status = 1\<rparr>], informations = [],
      student_infos = []\<rparr>"

section \<open>Facts about queries\<close>

lemma first_idx_None: "first_idx P xs = None \<longleftrightarrow> (\<forall>x\<in>set xs. \<not> P x)"
  by (induction xs) auto

lemma first_idx_Some:
  "first_idx P xs = Some i \<Longrightarrow> i < length xs \<and> P (xs ! i) \<and> (\<forall>j<i. \<not> P (xs ! j))"
proof (induction xs arbitrary: i)
  case Nil
  then show ?case by simp
next
  case (Cons x xs)
  show ?case
  proof (cases "P x")
    case True
    with Cons.prems show ?thesis by simp
  next
    case False
    with Cons.prems obtain k where k: "first_idx P xs = Some k" "i = Suc k" by auto
    from Cons.IH [OF k(1)] have "k < length xs" "P (xs ! k)" "\<forall>j<k. \<not> P (xs ! j)" by auto
    with False k(2) show ?thesis by (auto simp: nth_Cons split: nat.splits)
  qed
qed

lemma find_first_idx:
  "find P xs = (case first_idx P xs of None \<Rightarrow> None | Some i \<Rightarrow> Some (xs ! i))"
  by (induction xs) (auto split: option.splits)

lemma first_idx_of_find:
  "find P xs = Some x \<Longrightarrow> \<exists>i. first_idx P xs = Some i \<and> xs ! i = x"
  by (auto simp: find_first_idx split: option.splits)

section \<open>Adding a member\<close>

text \<open>
  C1. \<open>add_member\<close> applies its checks in this order: 404 when no group has the id;
  otherwise, for the group found (the first row with the id), 403 when the caller is not
  its leader; otherwise 400 when its quantity is at least 4; otherwise 400 when the
  student has a member row in any group; otherwise it appends the member row
  \<open>(group_id, student_id, is_leader = False)\<close>, adds exactly 1 to the quantity of the group
  found, and commits. Every failure leaves the session as it was.
\<close>

theorem add_member_checks_in_order:
  "(group_id \<notin> g_id ` set (groups (pending db)) \<longrightarrow>
      add_member db group_id student_id leader_id = (Inl HTTP_404_NOT_FOUND, db)) \<and>
   (find (\<lambda>g. g_id g = group_id) (groups (pending db)) = Some g \<longrightarrow>
      (g_leader_id g \<noteq> leader_id \<longrightarrow>
         add_member db group_id student_id leader_id = (Inl HTTP_403_FORBIDDEN, db)) \<and>
      (g_leader_id g = leader_id \<and> g_quantity g \<ge> 4 \<longrightarrow>
         add_member db group_id student_id leader_id = (Inl HTTP_400_BAD_REQUEST, db)) \<and>
      (g_leader_id g = leader_id \<and> g_quantity g < 4 \<and>
       student_id \<in> m_student_id ` set (members (pending db)) \<longrightarrow>
         add_member db group_id student_id leader_id = (Inl HTTP_400_BAD_REQUEST, db)) \<and>
      (g_leader_id g = leader_id \<and> g_quantity g < 4 \<and>
       student_id \<notin> m_student_id ` set (members (pending db)) \<longrightarrow>
         (\<exists>gi db'. first_idx (\<lambda>g. g_id g = group_id) (groups (pending db)) = Some gi \<and>
            add_member db group_id student_id leader_id =
              (Inr \<lparr>m_group_id = group_id, m_student_id = student_id, m_is_leader = False\<rparr>, db') \<and>
            pending db' = (pending db)
              \<lparr>members := members (pending db) @
                  [\<lparr>m_group_id = group_id, m_student_id = student_id, m_is_leader = False\<rparr>],
               groups := (groups (pending db))[gi := g\<lparr>g_quantity := g_quantity g + 1\<rparr>]\<rparr> \<and>
            committed db' = pending db')))"
proof -
  have nf: "add_member db group_id student_id leader_id = (Inl HTTP_404_NOT_FOUND, db)"
    if "group_id \<notin> g_id ` set (groups (pending db))"
  proof -
    from that have "first_idx (\<lambda>g. g_id g = group_id) (groups (pending db)) = None"
      by (auto simp: first_idx_None)
    then show ?thesis by (simp add: add_member_def)
  qed
  have rest: ?thesis if f: "find (\<lambda>g. g_id g = group_id) (groups (pending db)) = Some g"
  proof -
    from first_idx_of_find [OF f] obtain gi where
      gi: "first_idx (\<lambda>g. g_id g = group_id) (groups (pending db)) = Some gi"
      and g: "groups (pending db) ! gi = g" by blast
    have mem: "is_member_of_any_group db student_id \<longleftrightarrow>
        student_id \<in> m_student_id ` set (members (pending db))"
      by (auto simp: is_member_of_any_group_def first_idx_None)
    from first_idx_Some [OF gi] have "group_id \<in> g_id ` set (groups (pending db))"
      by (metis imageI nth_mem)
    then show ?thesis using gi g mem
      by (auto simp: add_member_def Let_def set_members_def set_groups_def db_commit_def)
  qed
  show ?thesis
  proof (cases "find (\<lambda>g. g_id g = group_id) (groups (pending db)) = Some g")
    case True
    with rest show ?thesis by simp
  next
    case False
    then show ?thesis using nf by simp
  qed
qed

theorem add_member_checks_in_order_witness:
  "add_member ex_db 9 30 10 = (Inl HTTP_404_NOT_FOUND, ex_db) \<and>
   add_member ex_db 1 30 11 = (Inl HTTP_403_FORBIDDEN, ex_db) \<and>
   add_member ex_db 2 30 20 = (Inl HTTP_400_BAD_REQUEST, ex_db) \<and>
   add_member ex_db 1 21 10 = (Inl HTTP_400_BAD_REQUEST, ex_db) \<and>
   fst (add_member ex_db 1 30 10) =
     Inr \<lparr>m_group_id = 1, m_student_id = 30, m_is_leader = False\<rparr> \<and>
   map g_quantity (groups (committed (snd (add_member ex_db 1 30 10)))) = [3, 4] \<and>
   length (members (committed (snd (add_member ex_db 1 30 10)))) = 7"
  using add_member_checks_in_order [where db = ex_db and group_id = 9 and student_id = 30
      and leader_id = 10 and g = "groups ex_store ! 0"]
    add_member_checks_in_order [where db = ex_db and group_id = 1 and student_id = 30
      and leader_id = 11 and g = "groups ex_store ! 0"]
    add_member_checks_in_order [where db = ex_db and group_id = 2 and student_id = 30
      and leader_id = 20 and g = "groups ex_store ! 1"]
    add_member_checks_in_order [where db = ex_db and group_id = 1 and student_id = 21
      and leader_id = 10 and g = "groups ex_store ! 0"]
    add_member_checks_in_order [where db = ex_db and group_id = 1 and student_id = 30
      and leader_id = 10 and g = "groups ex_store ! 0"]
  by (auto simp: ex_db_def ex_store_def begin_session_def)

section \<open>Removing a member\<close>

lemma group_lookup_None:
  "group_id \<notin> g_id ` set gs \<Longrightarrow> first_idx (\<lambda>g. g_id g = group_id) gs = None"
  by (auto simp: first_idx_None)

lemma length_remove_nth: "i < length xs \<Longrightarrow> Suc (length (remove_nth i xs)) = length xs"
  by (auto simp: remove_nth_def)

lemma filter_remove_nth:
  "i < length xs \<Longrightarrow> P (xs ! i) \<Longrightarrow>
     filter (\<lambda>x. \<not> P x) (remove_nth i xs) = filter (\<lambda>x. \<not> P x) xs"
proof -
  assume i: "i < length xs" and p: "P (xs ! i)"
  have "xs = take i xs @ xs ! i # drop (Suc i) xs"
    using i by (simp add: id_take_nth_drop)
  then have "filter (\<lambda>x. \<not> P x) xs =
      filter (\<lambda>x. \<not> P x) (take i xs @ xs ! i # drop (Suc i) xs)" by simp
  also have "\<dots> = filter (\<lambda>x. \<not> P x) (remove_nth i xs)"
    using p by (simp add: remove_nth_def)
  finally show ?thesis by simp
qed

text \<open>
  C8. \<open>remove_member\<close> fails with 404 when no group has the id; otherwise, for the
  group found, with 403 when the caller is not its leader; otherwise with 400 when the
  member to remove is the caller, who is the leader at that point; otherwise with 404 when
  the member has no row in the group; otherwise it deletes the one row that was looked up
  (the member table gets exactly one row shorter), subtracts exactly 1 from the quantity
  of the group found, and commits.
\<close>

theorem remove_member_checks_in_order:
  "(group_id \<notin> g_id ` set (groups (pending db)) \<longrightarrow>
      remove_member db group_id member_id leader_id = (Inl HTTP_404_NOT_FOUND, db)) \<and>
   (find (\<lambda>g. g_id g = group_id) (groups (pending db)) = Some g \<longrightarrow>
      (g_leader_id g \<noteq> leader_id \<longrightarrow>
         remove_member db group_id member_id leader_id = (Inl HTTP_403_FORBIDDEN, db)) \<and>
      (g_leader_id g = leader_id \<and> member_id = leader_id \<longrightarrow>
         remove_member db group_id member_id leader_id = (Inl HTTP_400_BAD_REQUEST, db)) \<and>
      (g_leader_id g = leader_id \<and> member_id \<noteq> leader_id \<and>
       (\<forall>m\<in>set (members (pending db)).
          \<not> (m_group_id m = group_id \<and> m_student_id m = member_id)) \<longrightarrow>
         remove_member db group_id member_id leader_id = (Inl HTTP_404_NOT_FOUND, db)) \<and>
      (g_leader_id g = leader_id \<and> member_id \<noteq> leader_id \<and>
       (\<exists>m\<in>set (members (pending db)).
          m_group_id m = group_id \<and> m_student_id m = member_id) \<longrightarrow>
         (\<exists>gi mi db'.
            first_idx (\<lambda>g. g_id g = group_id) (groups (pending db)) = Some gi \<and>
            first_idx (\<lambda>m. m_group_id m = group_id \<and> m_student_id m = member_id)
              (members (pending db)) = Some mi \<and>
            remove_member db group_id member_id leader_id = (Inr (), db') \<and>
            pending db' = (pending db)
              \<lparr>members := remove_nth mi (members (pending db)),
               groups := (groups (pending db))[gi := g\<lparr>g_quantity := g_quantity g - 1\<rparr>]\<rparr> \<and>
            Suc (length (members (pending db'))) = length (members (pending db)) \<and>
            committed db' = pending db')))"
proof (cases "find (\<lambda>g. g_id g = group_id) (groups (pending db)) = Some g")
  case False
  then show ?thesis by (simp add: remove_member_def group_lookup_None)
next
  case True
  from first_idx_of_find [OF True] obtain gi where
    gi: "first_idx (\<lambda>g. g_id g = group_id) (groups (pending db)) = Some gi"
    and g: "groups (pending db) ! gi = g" by blast
  from first_idx_Some [OF gi] have ex: "group_id \<in> g_id ` set (groups (pending db))"
    by (metis imageI nth_mem)
  let ?Q = "\<lambda>m. m_group_id m = group_id \<and> m_student_id m = member_id"
  show ?thesis
  proof (cases "first_idx ?Q (members (pending db))")
    case None
    then have "\<forall>m\<in>set (members (pending db)). \<not> ?Q m" by (simp add: first_idx_None)
    then show ?thesis using gi g ex None True
      by (auto simp: remove_member_def Let_def)
  next
    case (Some mi)
    from first_idx_Some [OF Some] have mi: "mi < length (members (pending db))"
      and q: "?Q (members (pending db) ! mi)" by auto
    then have "\<exists>m\<in>set (members (pending db)). ?Q m" by (metis nth_mem)
    then show ?thesis using gi g ex Some True length_remove_nth [OF mi]
      by (auto simp: remove_member_def Let_def set_members_def set_groups_def db_commit_def)
  qed
qed

theorem remove_member_checks_in_order_witness:
  "remove_member ex_db 9 11 10 = (Inl HTTP_404_NOT_FOUND, ex_db) \<and>
   remove_member ex_db 1 10 11 = (Inl HTTP_403_FORBIDDEN, ex_db) \<and>
   remove_member ex_db 1 10 10 = (Inl HTTP_400_BAD_REQUEST, ex_db) \<and>
   remove_member ex_db 1 21 10 = (Inl HTTP_404_NOT_FOUND, ex_db) \<and>
   fst (remove_member ex_db 1 11 10) = Inr () \<and>
   map m_student_id (members (committed (snd (remove_member ex_db 1 11 10)))) =
     [10, 20, 21, 22, 23] \<and>
   map g_quantity (groups (committed (snd (remove_member ex_db 1 11 10)))) = [1, 4]"
  using remove_member_checks_in_order [where db = ex_db and group_id = 9 and member_id = 11
      and leader_id = 10 and g = "groups ex_store ! 0"]
    remove_member_checks_in_order [where db = ex_db and group_id = 1 and member_id = 10
      and leader_id = 11 and g = "groups ex_store ! 0"]
    remove_member_checks_in_order [where db = ex_db and group_id = 1 and member_id = 10
      and leader_id = 10 and g = "groups ex_store ! 0"]
    remove_member_checks_in_order [where db = ex_db and group_id = 1 and member_id = 21
      and leader_id = 10 and g = "groups ex_store ! 0"]
    remove_member_checks_in_order [where db = ex_db and group_id = 1 and member_id = 11
      and leader_id = 10 and g = "groups ex_store ! 0"]
  by (auto simp: ex_db_def ex_store_def begin_session_def remove_nth_def)

section \<open>Deleting a group\<close>

text \<open>
  C9. \<open>delete_group\<close> fails with 404 when no group has the id; otherwise with 403
  when the caller is not the leader; otherwise with 400 when the group's thesis is set;
  otherwise it deletes every invite and every member row with the group's id and the
  group row that was looked up, and commits. The rows of other groups, the invites and
  members of other groups, and the other tables stay as they were.
\<close>

theorem delete_group_cascades:
  "(group_id \<notin> g_id ` set (groups (pending db)) \<longrightarrow>
      delete_group db group_id user_id = (Inl HTTP_404_NOT_FOUND, db)) \<and>
   (find (\<lambda>g. g_id g = group_id) (groups (pending db)) = Some g \<longrightarrow>
      (g_leader_id g \<noteq> user_id \<longrightarrow>
         delete_group db group_id user_id = (Inl HTTP_403_FORBIDDEN, db)) \<and>
      (g_leader_id g = user_id \<and> g_thesis_id g \<noteq> None \<longrightarrow>
         delete_group db group_id user_id = (Inl HTTP_400_BAD_REQUEST, db)) \<and>
      (g_leader_id g = user_id \<and> g_thesis_id g = None \<longrightarrow>
         (\<exists>gi db'.
            first_idx (\<lambda>g. g_id g = group_id) (groups (pending db)) = Some gi \<and>
            delete_group db group_id user_id = (Inr (), db') \<and>
            pending db' = (pending db)
              \<lparr>invites := filter (\<lambda>v. i_group_id v \<noteq> group_id) (invites (pending db)),
               members := filter (\<lambda>m. m_group_id m \<noteq> group_id) (members (pending db)),
               groups := remove_nth gi (groups (pending db))\<rparr> \<and>
            Suc (length (groups (pending db'))) = length (groups (pending db)) \<and>
            filter (\<lambda>g. g_id g \<noteq> group_id) (groups (pending db')) =
              filter (\<lambda>g. g_id g \<noteq> group_id) (groups (pending db)) \<and>
            committed db' = pending db')))"
proof (cases "find (\<lambda>g. g_id g = group_id) (groups (pending db)) = Some g")
  case False
  then show ?thesis by (simp add: delete_group_def group_lookup_None)
next
  case True
  from first_idx_of_find [OF True] obtain gi where
    gi: "first_idx (\<lambda>g. g_id g = group_id) (groups (pending db)) = Some gi"
    and g: "groups (pending db) ! gi = g" by blast
  from first_idx_Some [OF gi] have lt: "gi < length (groups (pending db))"
    and p: "g_id (groups (pending db) ! gi) = group_id" by auto
  then have ex: "group_id \<in> g_id ` set (groups (pending db))"
    by (metis imageI nth_mem)
  show ?thesis using gi g ex True length_remove_nth [OF lt]
      filter_remove_nth [of gi "groups (pending db)" "\<lambda>g. g_id g = group_id", OF lt p]
    by (auto simp: delete_group_def Let_def set_members_def set_groups_def set_invites_def
        db_commit_def)
qed

theorem delete_group_cascades_witness:
  "delete_group ex_db 9 10 = (Inl HTTP_404_NOT_FOUND, ex_db) \<and>
   delete_group ex_db 1 11 = (Inl HTTP_403_FORBIDDEN, ex_db) \<and>
   delete_group ex_db 2 20 = (Inl HTTP_400_BAD_REQUEST, ex_db) \<and>
   fst (delete_group ex_db 1 10) = Inr () \<and>
   map g_id (groups (committed (snd (delete_group ex_db 1 10)))) = [2] \<and>
   map m_student_id (members (committed (snd (delete_group ex_db 1 10)))) = [20, 21, 22, 23] \<and>
   map i_id (invites (committed (snd (delete_group ex_db 1 10)))) = [101]"
  using delete_group_cascades [where db = ex_db and group_id = 9 and user_id = 10
      and g = "groups ex_store ! 0"]
    delete_group_cascades [where db = ex_db and group_id = 1 and user_id = 11
      and g = "groups ex_store ! 0"]
    delete_group_cascades [where db = ex_db and group_id = 2 and user_id = 20
      and g = "groups ex_store ! 1"]
    delete_group_cascades [where db = ex_db and group_id = 1 and user_id = 10
      and g = "groups ex_store ! 0"]
  by (auto simp: ex_db_def ex_store_def begin_session_def remove_nth_def)

section \<open>Registering a thesis\<close>

text \<open>
  C3, as the spec states it, fails: the thesis row is looked up before the test for a
  group that holds the thesis. In \<open>ex_store_no_thesis\<close> group 1 exists, user 10 is
  its leader, it has no thesis, group 2 holds thesis 50 and the thesis table has no row 50:
  the call fails with 404, not with 400.
\<close>

theorem register_thesis_counterexample:
  "fst (register_thesis_for_group (begin_session ex_store_no_thesis) 1 50 10) =
     Inl HTTP_404_NOT_FOUND \<and>
   g_id (groups ex_store_no_thesis ! 0) = 1 \<and>
   g_leader_id (groups ex_store_no_thesis ! 0) = 10 \<and>
   g_thesis_id (groups ex_store_no_thesis ! 0) = None \<and>
   g_thesis_id (groups ex_store_no_thesis ! 1) = Some 50"
  by (simp add: register_thesis_for_group_def begin_session_def ex_store_no_thesis_def
      ex_store_def Let_def)

text \<open>
  C3, amended. When the group exists, the caller is its leader and the group has no
  thesis: \<open>register_thesis_for_group\<close> fails with 404 whenever the thesis is absent
  (whether or not a group holds its id); it fails with 400 when the thesis exists and some
  group holds it; otherwise it sets the thesis of the group found, sets the status of the
  thesis found to 2, commits and returns the updated group.
\<close>

theorem register_thesis_checks_in_order:
  assumes "find (\<lambda>g. g_id g = group_id) (groups (pending db)) = Some g"
    and "g_leader_id g = user_id"
    and "g_thesis_id g = None"
  shows
  "(thesis_id \<notin> t_id ` set (theses (pending db)) \<longrightarrow>
      register_thesis_for_group db group_id thesis_id user_id = (Inl HTTP_404_NOT_FOUND, db)) \<and>
   (thesis_id \<in> t_id ` set (theses (pending db)) \<and>
    Some thesis_id \<in> g_thesis_id ` set (groups (pending db)) \<longrightarrow>
      register_thesis_for_group db group_id thesis_id user_id = (Inl HTTP_400_BAD_REQUEST, db)) \<and>
   (thesis_id \<in> t_id ` set (theses (pending db)) \<and>
    Some thesis_id \<notin> g_thesis_id ` set (groups (pending db)) \<longrightarrow>
      (\<exists>gi ti db'.
         first_idx (\<lambda>g. g_id g = group_id) (groups (pending db)) = Some gi \<and>
         first_idx (\<lambda>t. t_id t = thesis_id) (theses (pending db)) = Some ti \<and>
         register_thesis_for_group db group_id thesis_id user_id =
           (Inr (g\<lparr>g_thesis_id := Some thesis_id\<rparr>), db') \<and>
         pending db' = (pending db)
           \<lparr>groups := (groups (pending db))[gi := g\<lparr>g_thesis_id := Some thesis_id\<rparr>],
            theses := (theses (pending db))
              [ti := (theses (pending db) ! ti)\<lparr>t_status := 2\<rparr>]\<rparr> \<and>
         committed db' = pending db'))"
proof -
  from first_idx_of_find [OF assms(1)] obtain gi where
    gi: "first_idx (\<lambda>g. g_id g = group_id) (groups (pending db)) = Some gi"
    and g: "groups (pending db) ! gi = g" by blast
  from first_idx_Some [OF gi] have lt: "gi < length (groups (pending db))" by simp
  let ?T = "first_idx (\<lambda>t. t_id t = thesis_id) (theses (pending db))"
  let ?H = "first_idx (\<lambda>g. g_thesis_id g = Some thesis_id) (groups (pending db))"
  show ?thesis
  proof (cases ?T)
    case None
    then have "thesis_id \<notin> t_id ` set (theses (pending db))"
      by (auto simp: first_idx_None)
    then show ?thesis using gi g None assms(2,3)
      by (simp add: register_thesis_for_group_def)
  next
    case (Some ti)
    from first_idx_Some [OF Some] have t_in: "thesis_id \<in> t_id ` set (theses (pending db))"
      by (metis imageI nth_mem)
    show ?thesis
    proof (cases ?H)
      case None
      then have "Some thesis_id \<notin> g_thesis_id ` set (groups (pending db))"
        by (auto simp: first_idx_None)
      then show ?thesis using gi g Some None assms(2,3) t_in lt
        by (simp add: register_thesis_for_group_def Let_def set_groups_def set_theses_def
            db_commit_def)
    next
      case (Some hi)
      from first_idx_Some [OF Some]
      have "Some thesis_id \<in> g_thesis_id ` set (groups (pending db))"
        by (metis imageI nth_mem)
      then show ?thesis using gi g \<open>?T = Some ti\<close> Some assms(2,3) t_in
        by (simp add: register_thesis_for_group_def)
    qed
  qed
qed

theorem register_thesis_checks_in_order_witness:
  "register_thesis_for_group (begin_session ex_store_no_thesis) 1 50 10 =
     (Inl HTTP_404_NOT_FOUND, begin_session ex_store_no_thesis) \<and>
   register_thesis_for_group ex_db 1 50 10 = (Inl HTTP_400_BAD_REQUEST, ex_db) \<and>
   fst (register_thesis_for_group ex_db 1 51 10) =
     Inr \<lparr>g_id = 1, g_name = ''G1'', g_leader_id = 10, g_quantity = 2, g_thesis_id = Some 51\<rparr> \<and>
   map g_thesis_id (groups (committed (snd (register_thesis_for_group ex_db 1 51 10)))) =
     [Some 51, Some 50] \<and>
   map t_status (theses (committed (snd (register_thesis_for_group ex_db 1 51 10)))) = [2, 2]"
  using register_thesis_checks_in_order [where db = "begin_session ex_store_no_thesis"
      and group_id = 1 and thesis_id = 50 and user_id = 10
      and g = "groups ex_store_no_thesis ! 0"]
    register_thesis_checks_in_order [where db = ex_db and group_id = 1 and thesis_id = 50
      and user_id = 10 and g = "groups ex_store ! 0"]
    register_thesis_checks_in_order [where db = ex_db and group_id = 1 and thesis_id = 51
      and user_id = 10 and g = "groups ex_store ! 0"]
  by (auto simp: ex_db_def ex_store_def ex_store_no_thesis_def begin_session_def)

section \<open>Transferring leadership to oneself\<close>

text \<open>
  C10. When the group exists, \<open>leader\<close> is its leader and the row of \<open>leader\<close> in the
  group (the one the lookup finds) has \<open>is_leader = True\<close>, the call
  \<open>transfer_leader db group_id leader leader\<close> raises nothing and leaves the tables as
  they were: both lookups find the same row, whose flag is set to \<open>False\<close> and then back
  to \<open>True\<close>, and the leader of the group is overwritten with the same id.
\<close>

theorem self_transfer_is_identity:
  assumes "find (\<lambda>g. g_id g = group_id) (groups (pending db)) = Some g"
    and "g_leader_id g = leader"
    and "find (\<lambda>m. m_student_id m = leader \<and> m_group_id m = group_id) (members (pending db))
           = Some m"
    and "m_is_leader m"
  shows "fst (transfer_leader db group_id leader leader) = Inr () \<and>
         pending (snd (transfer_leader db group_id leader leader)) = pending db \<and>
         committed (snd (transfer_leader db group_id leader leader)) = pending db"
proof -
  from first_idx_of_find [OF assms(1)] obtain gi where
    gi: "first_idx (\<lambda>g. g_id g = group_id) (groups (pending db)) = Some gi"
    and g: "groups (pending db) ! gi = g" by blast
  from first_idx_of_find [OF assms(3)] obtain mi where
    mi: "first_idx (\<lambda>m. m_student_id m = leader \<and> m_group_id m = group_id)
           (members (pending db)) = Some mi"
    and m: "members (pending db) ! mi = m" by blast
  from first_idx_Some [OF mi] have lt: "mi < length (members (pending db))" by simp
  have m_same: "m\<lparr>m_is_leader := True\<rparr> = m" using assms(4) by simp
  have g_same: "g\<lparr>g_leader_id := leader\<rparr> = g" using assms(2) by auto
  have ms: "(members (pending db))[mi := m\<lparr>m_is_leader := True\<rparr>] = members (pending db)"
    using m m_same by (simp add: list_update_same_conv lt)
  have gs: "(groups (pending db))[gi := g\<lparr>g_leader_id := leader\<rparr>] = groups (pending db)"
    using g g_same by (metis list_update_id)
  show ?thesis using gi g mi m assms(2) lt ms gs
    by (simp add: transfer_leader_def Let_def set_members_def set_groups_def db_commit_def)
qed

theorem self_transfer_is_identity_witness:
  "fst (transfer_leader ex_db 1 10 10) = Inr () \<and>
   pending (snd (transfer_leader ex_db 1 10 10)) = ex_store \<and>
   committed (snd (transfer_leader ex_db 1 10 10)) = ex_store"
  using self_transfer_is_identity [where db = ex_db and group_id = 1 and leader = 10
      and g = "groups ex_store ! 0" and m = "members ex_store ! 0"]
  by (simp add: ex_db_def ex_store_def begin_session_def)

section \<open>Atomicity of the write operations\<close>

text \<open>
  C2. Each of the seven write operations either raises and leaves the session exactly
  as it was (pending rows, committed rows and number of commits: every check precedes
  every write), or succeeds, and then it has committed exactly once and the committed
  store is the store with all its writes.
\<close>

theorem write_operations_are_atomic:
  "(fst (call c db) \<noteq> None \<longrightarrow> snd (call c db) = db) \<and>
   (fst (call c db) = None \<longrightarrow>
      committed (snd (call c db)) = pending (snd (call c db)) \<and>
      commits (snd (call c db)) = Suc (commits db))"
proof (cases c)
  case (CreateGroup new_id name user_id)
  then show ?thesis
    by (simp add: failure_def create_group_def Let_def db_commit_def set_groups_def set_members_def
        set_invites_def set_theses_def split: option.splits)
next
  case (AddMember group_id student_id leader_id)
  then show ?thesis
    by (simp add: failure_def add_member_def Let_def db_commit_def set_groups_def set_members_def
        set_invites_def set_theses_def split: option.splits)
next
  case (RemoveMember group_id member_id leader_id)
  then show ?thesis
    by (simp add: failure_def remove_member_def Let_def db_commit_def set_groups_def set_members_def
        set_invites_def set_theses_def split: option.splits)
next
  case (TransferLeader group_id new_leader_id current_leader_id)
  then show ?thesis
    by (simp add: failure_def transfer_leader_def Let_def db_commit_def set_groups_def set_members_def
        set_invites_def set_theses_def split: option.splits)
next
  case (UpdateGroupName group_id new_name user_id)
  then show ?thesis
    by (simp add: failure_def update_group_name_def Let_def db_commit_def set_groups_def set_members_def
        set_invites_def set_theses_def split: option.splits)
next
  case (DeleteGroup group_id user_id)
  then show ?thesis
    by (simp add: failure_def delete_group_def Let_def db_commit_def set_groups_def set_members_def
        set_invites_def set_theses_def split: option.splits)
next
  case (RegisterThesis group_id thesis_id user_id)
  then show ?thesis
    by (simp add: failure_def register_thesis_for_group_def Let_def db_commit_def set_groups_def set_members_def
        set_invites_def set_theses_def
        split: option.splits)
qed

theorem write_operations_are_atomic_witness:
  "fst (call (AddMember 2 30 20) ex_db) = Some HTTP_400_BAD_REQUEST \<and>
   snd (call (AddMember 2 30 20) ex_db) = ex_db \<and>
   fst (call (TransferLeader 1 11 10) ex_db) = None \<and>
   committed (snd (call (TransferLeader 1 11 10) ex_db)) =
     pending (snd (call (TransferLeader 1 11 10) ex_db)) \<and>
   commits (snd (call (TransferLeader 1 11 10) ex_db)) = 1"
  using write_operations_are_atomic [of "AddMember 2 30 20" ex_db]
    write_operations_are_atomic [of "TransferLeader 1 11 10" ex_db]
  by (simp add: failure_def add_member_def transfer_leader_def Let_def ex_db_def ex_store_def
      begin_session_def)

section \<open>Member details\<close>

lemma find_None_set: "find P xs = None \<longleftrightarrow> (\<forall>x\<in>set xs. \<not> P x)"
  by (induction xs) auto

lemma member_details_loop_join:
  "member_details_loop db ms acc =
     acc @ map (spec_detail (pending db))
       (filter (\<lambda>m. spec_has_information (pending db) (m_student_id m) \<and>
                    spec_has_student_info (pending db) (m_student_id m)) ms)"
proof (induction ms arbitrary: acc)
  case Nil
  then show ?case by simp
next
  case (Cons m ms)
  have i: "find (\<lambda>i. inf_user_id i = m_student_id m) (informations (pending db)) \<noteq> None
      \<longleftrightarrow> spec_has_information (pending db) (m_student_id m)"
    by (auto simp: find_None_set spec_has_information_def)
  have s: "find (\<lambda>s. si_user_id s = m_student_id m) (student_infos (pending db)) \<noteq> None
      \<longleftrightarrow> spec_has_student_info (pending db) (m_student_id m)"
    by (auto simp: find_None_set spec_has_student_info_def)
  show ?case
    by (simp only: member_details_loop.simps Let_def i s Cons.IH)
      (simp add: spec_detail_def Let_def)
qed

lemma details_of_group_join:
  "member_details_loop db (filter (\<lambda>m. m_group_id m = group_id) (members (pending db))) [] =
     spec_details_of_group (pending db) group_id"
  by (simp add: member_details_loop_join spec_details_of_group_def conj_ac)

lemma all_groups_loop_join:
  "all_groups_loop db ms acc =
     acc @ map (spec_entry (pending db))
       (filter (\<lambda>m. m_group_id m \<in> g_id ` set (groups (pending db))) ms)"
proof (induction ms arbitrary: acc)
  case Nil
  then show ?case by simp
next
  case (Cons m ms)
  show ?case
  proof (cases "find (\<lambda>g. g_id g = m_group_id m) (groups (pending db))")
    case None
    then have "m_group_id m \<notin> g_id ` set (groups (pending db))"
      by (auto simp: find_None_iff)
    with None show ?thesis by (simp add: Cons.IH)
  next
    case (Some grp)
    then have "m_group_id m \<in> g_id ` set (groups (pending db))"
      by (metis (mono_tags, lifting) find_Some_iff imageI nth_mem)
    with Some show ?thesis
      by (simp add: Cons.IH Let_def details_of_group_join spec_entry_def)
  qed
qed

text \<open>
  C4, as the spec states it, fails: a member is listed only when both profile rows are
  found (\<^verbatim>\<open>if info and student_info\<close>). In \<open>ex_store\<close> user 11 is a member of group
  1 and has an \<^verbatim>\<open>Information\<close> row but no \<^verbatim>\<open>StudentInfo\<close> row: user 11 is
  missing from the detail list of group 1 and from the entry of group 1 in the list of
  user 11's own groups.
\<close>

theorem member_details_counterexample:
  "get_detailed_members_of_group ex_db 1 =
     Inr [\<lparr>md_user_id = 10, md_full_name = ''Tran An'', md_student_code = ''SV010'',
           md_is_leader = True\<rparr>] \<and>
   map gw_members (get_all_groups_for_user ex_db 11) =
     [[\<lparr>md_user_id = 10, md_full_name = ''Tran An'', md_student_code = ''SV010'',
        md_is_leader = True\<rparr>]] \<and>
   map m_student_id (get_members ex_db 1) = [10, 11] \<and>
   spec_has_information ex_store 11 \<and> \<not> spec_has_student_info ex_store 11"
  by (simp add: get_detailed_members_of_group_def get_all_groups_for_user_def get_members_def
      spec_has_information_def spec_has_student_info_def ex_db_def ex_store_def
      begin_session_def Let_def)

text \<open>
  C4, amended. \<open>get_all_groups_for_user\<close> returns one entry for each member row of
  the user whose group exists, in the order of the member table, and each entry lists the
  details (student id, last name and first name joined by a space, student code, leader
  flag) of those member rows of the group whose student has both an \<^verbatim>\<open>Information\<close>
  row and a \<^verbatim>\<open>StudentInfo\<close> row; a member who lacks at least one of the two is left
  out. \<open>get_detailed_members_of_group\<close> returns the same list for one group, or 404 when
  the group does not exist.
\<close>

theorem member_details_are_the_join:
  "get_detailed_members_of_group db group_id =
     (if group_id \<in> g_id ` set (groups (pending db))
      then Inr (spec_details_of_group (pending db) group_id)
      else Inl HTTP_404_NOT_FOUND) \<and>
   get_all_groups_for_user db user_id =
     map (spec_entry (pending db))
       (filter (\<lambda>m. m_student_id m = user_id \<and>
                    m_group_id m \<in> g_id ` set (groups (pending db)))
          (members (pending db)))"
proof
  show "get_detailed_members_of_group db group_id =
     (if group_id \<in> g_id ` set (groups (pending db))
      then Inr (spec_details_of_group (pending db) group_id)
      else Inl HTTP_404_NOT_FOUND)"
  proof (cases "find (\<lambda>g. g_id g = group_id) (groups (pending db))")
    case None
    then have "group_id \<notin> g_id ` set (groups (pending db))"
      by (auto simp: find_None_iff)
    with None show ?thesis by (simp add: get_detailed_members_of_group_def)
  next
    case (Some grp)
    then have "group_id \<in> g_id ` set (groups (pending db))"
      by (metis (mono_tags, lifting) find_Some_iff imageI nth_mem)
    with Some show ?thesis
      by (simp add: get_detailed_members_of_group_def details_of_group_join)
  qed
next
  show "get_all_groups_for_user db user_id =
     map (spec_entry (pending db))
       (filter (\<lambda>m. m_student_id m = user_id \<and>
                    m_group_id m \<in> g_id ` set (groups (pending db)))
          (members (pending db)))"
    by (auto simp: get_all_groups_for_user_def Let_def all_groups_loop_join filter_empty_conv
        conj_commute)
qed

theorem member_details_are_the_join_witness:
  "get_detailed_members_of_group ex_db 1 = Inr (spec_details_of_group ex_store 1) \<and>
   spec_details_of_group ex_store 1 =
     [\<lparr>md_user_id = 10, md_full_name = ''Tran An'', md_student_code = ''SV010'',
       md_is_leader = True\<rparr>] \<and>
   get_detailed_members_of_group ex_db 9 = Inl HTTP_404_NOT_FOUND \<and>
   map gw_id (get_all_groups_for_user ex_db 21) = [2] \<and>
   map gw_members (get_all_groups_for_user ex_db 21) = [[]]"
  using member_details_are_the_join [of ex_db 1 21] member_details_are_the_join [of ex_db 9 21]
  by (simp add: spec_details_of_group_def spec_entry_def spec_detail_def
      spec_has_information_def spec_has_student_info_def ex_db_def ex_store_def
      begin_session_def Let_def)

section \<open>Facts about tables with unique keys\<close>

lemma remove_nth_Cons [simp]:
  "remove_nth 0 (x # xs) = xs" "remove_nth (Suc i) (x # xs) = x # remove_nth i xs"
  by (simp_all add: remove_nth_def)

lemma length_filter_remove_nth:
  "i < length xs \<Longrightarrow>
     length (filter P xs) = length (filter P (remove_nth i xs)) + (if P (xs ! i) then 1 else 0)"
proof (induction xs arbitrary: i)
  case Nil
  then show ?case by simp
next
  case (Cons x xs)
  then show ?case by (cases i) auto
qed

lemma set_remove_nth_subset: "set (remove_nth i xs) \<subseteq> set xs"
  unfolding remove_nth_def using set_take_subset [of i xs] set_drop_subset [of "Suc i" xs]
  by auto

lemma in_set_remove_nth:
  "x \<in> set xs \<Longrightarrow> i < length xs \<Longrightarrow> x \<noteq> xs ! i \<Longrightarrow> x \<in> set (remove_nth i xs)"
proof (induction xs arbitrary: i)
  case Nil
  then show ?case by simp
next
  case (Cons y ys)
  then show ?case by (cases i) auto
qed

lemma distinct_map_Cons_neq: "distinct (map k (y # ys)) \<Longrightarrow> x \<in> set ys \<Longrightarrow> k x \<noteq> k y"
  by (metis distinct.simps(2) image_eqI list.simps(9) set_map)

lemma remove_nth_as_filter:
  "distinct (map k xs) \<Longrightarrow> i < length xs \<Longrightarrow>
     remove_nth i xs = filter (\<lambda>x. k x \<noteq> k (xs ! i)) xs"
proof (induction xs arbitrary: i)
  case Nil
  then show ?case by simp
next
  case (Cons y ys)
  show ?case
  proof (cases i)
    case 0
    have "\<forall>x\<in>set ys. k x \<noteq> k y"
      using distinct_map_Cons_neq [OF Cons.prems(1)] by blast
    then have "filter (\<lambda>x. k x \<noteq> k y) ys = ys"
      by (simp add: filter_id_conv)
    with 0 show ?thesis by simp
  next
    case (Suc j)
    with Cons.prems have j: "j < length ys" and d: "distinct (map k ys)" by auto
    from j have "k y \<noteq> k (ys ! j)"
      using distinct_map_Cons_neq [OF Cons.prems(1), of "ys ! j"] by simp
    with Suc Cons.IH [OF d j] show ?thesis by simp
  qed
qed

lemma update_as_map:
  "distinct (map k xs) \<Longrightarrow> i < length xs \<Longrightarrow>
     xs[i := f (xs ! i)] = map (\<lambda>x. if k x = k (xs ! i) then f x else x) xs"
proof (induction xs arbitrary: i)
  case Nil
  then show ?case by simp
next
  case (Cons y ys)
  show ?case
  proof (cases i)
    case 0
    have "\<forall>x\<in>set ys. k x \<noteq> k y"
      using distinct_map_Cons_neq [OF Cons.prems(1)] by blast
    then have "map (\<lambda>x. if k x = k y then f x else x) ys = ys"
      by (simp add: map_idI)
    with 0 show ?thesis by simp
  next
    case (Suc j)
    with Cons.prems have j: "j < length ys" and d: "distinct (map k ys)" by auto
    from j have "k y \<noteq> k (ys ! j)"
      using distinct_map_Cons_neq [OF Cons.prems(1), of "ys ! j"] by simp
    with Suc Cons.IH [OF d j] show ?thesis by simp
  qed
qed

lemma distinct_key_unique:
  "distinct (map k xs) \<Longrightarrow> x \<in> set xs \<Longrightarrow> y \<in> set xs \<Longrightarrow> k x = k y \<Longrightarrow> x = y"
  by (meson distinct_map inj_onD)

section \<open>Consistent stores\<close>

text \<open>
  A store is consistent when its group keys are unique, its member rows belong to
  existing groups, no student has two member rows, every quantity is the number of member
  rows of its group, and in every group the leader flag marks exactly the row of the
  group's leader, which exists. The lemmas of this section show that the table updates
  the operations make keep a store consistent.
\<close>

lemmas inv_defs = consistent_def keys_distinct_def members_reference_groups_def
  one_group_per_student_def quantity_is_member_count_def leader_flags_match_def
  leader_is_member_def

lemma consistent_cong:
  "groups st' = groups st \<Longrightarrow> members st' = members st \<Longrightarrow> consistent st' = consistent st"
  by (simp add: inv_defs)

lemma consistent_initial: "initial st \<Longrightarrow> consistent st"
  by (simp add: inv_defs initial_def)

lemma consistent_create:
  assumes c: "consistent st"
    and fresh: "new_id \<notin> g_id ` set (groups st)"
    and nomem: "user_id \<notin> m_student_id ` set (members st)"
  shows "consistent (st\<lparr>groups := groups st @
             [\<lparr>g_id = new_id, g_name = name, g_leader_id = user_id, g_quantity = 1,
               g_thesis_id = None\<rparr>],
           members := members st @
             [\<lparr>m_group_id = new_id, m_student_id = user_id, m_is_leader = True\<rparr>]\<rparr>)"
proof -
  from c have ref: "\<forall>m\<in>set (members st). m_group_id m \<in> g_id ` set (groups st)"
    by (simp add: inv_defs)
  with fresh have none: "filter (\<lambda>m. m_group_id m = new_id) (members st) = []"
    by (auto simp: filter_empty_conv)
  have old: "filter (\<lambda>m. m_group_id m = g_id g) (members st @
        [\<lparr>m_group_id = new_id, m_student_id = user_id, m_is_leader = True\<rparr>]) =
      filter (\<lambda>m. m_group_id m = g_id g) (members st)" if "g \<in> set (groups st)" for g
    using that fresh by auto
  show ?thesis
    unfolding consistent_def
  proof (intro conjI)
    show "keys_distinct (st\<lparr>groups := groups st @
             [\<lparr>g_id = new_id, g_name = name, g_leader_id = user_id, g_quantity = 1,
               g_thesis_id = None\<rparr>],
           members := members st @
             [\<lparr>m_group_id = new_id, m_student_id = user_id, m_is_leader = True\<rparr>]\<rparr>)"
      using c fresh by (simp add: inv_defs)
  next
    show "members_reference_groups (st\<lparr>groups := groups st @
             [\<lparr>g_id = new_id, g_name = name, g_leader_id = user_id, g_quantity = 1,
               g_thesis_id = None\<rparr>],
           members := members st @
             [\<lparr>m_group_id = new_id, m_student_id = user_id, m_is_leader = True\<rparr>]\<rparr>)"
      using ref by (auto simp: inv_defs)
  next
    show "one_group_per_student (st\<lparr>groups := groups st @
             [\<lparr>g_id = new_id, g_name = name, g_leader_id = user_id, g_quantity = 1,
               g_thesis_id = None\<rparr>],
           members := members st @
             [\<lparr>m_group_id = new_id, m_student_id = user_id, m_is_leader = True\<rparr>]\<rparr>)"
      using c nomem by (simp add: inv_defs)
  next
    show "quantity_is_member_count (st\<lparr>groups := groups st @
             [\<lparr>g_id = new_id, g_name = name, g_leader_id = user_id, g_quantity = 1,
               g_thesis_id = None\<rparr>],
           members := members st @
             [\<lparr>m_group_id = new_id, m_student_id = user_id, m_is_leader = True\<rparr>]\<rparr>)"
      using c none old by (auto simp: inv_defs)
  next
    show "leader_flags_match (st\<lparr>groups := groups st @
             [\<lparr>g_id = new_id, g_name = name, g_leader_id = user_id, g_quantity = 1,
               g_thesis_id = None\<rparr>],
           members := members st @
             [\<lparr>m_group_id = new_id, m_student_id = user_id, m_is_leader = True\<rparr>]\<rparr>)"
      using c ref fresh by (auto simp: inv_defs)
  next
    show "leader_is_member (st\<lparr>groups := groups st @
             [\<lparr>g_id = new_id, g_name = name, g_leader_id = user_id, g_quantity = 1,
               g_thesis_id = None\<rparr>],
           members := members st @
             [\<lparr>m_group_id = new_id, m_student_id = user_id, m_is_leader = True\<rparr>]\<rparr>)"
      using c by (auto simp: inv_defs)
  qed
qed

lemma consistent_mapI:
  assumes key: "\<And>x. g_id (f x) = g_id x"
    and k: "keys_distinct st"
    and gs: "groups st' = map f (groups st)"
    and r: "\<forall>m\<in>set (members st'). m_group_id m \<in> g_id ` set (groups st)"
    and o: "distinct (map m_student_id (members st'))"
    and q: "\<forall>x\<in>set (groups st). g_quantity (f x) =
              int (length (filter (\<lambda>m. m_group_id m = g_id x) (members st')))"
    and fl: "\<forall>x\<in>set (groups st). \<forall>m\<in>set (members st').
              m_group_id m = g_id x \<longrightarrow> (m_is_leader m \<longleftrightarrow> m_student_id m = g_leader_id (f x))"
    and l: "\<forall>x\<in>set (groups st). \<exists>m\<in>set (members st').
              m_group_id m = g_id x \<and> m_student_id m = g_leader_id (f x)"
  shows "consistent st'"
proof -
  have ids: "map g_id (groups st') = map g_id (groups st)"
    by (simp add: gs key)
  then have idset: "g_id ` set (groups st') = g_id ` set (groups st)"
    by (metis set_map)
  have 1: "keys_distinct st'" using k ids by (simp add: keys_distinct_def)
  have 2: "members_reference_groups st'"
    using r idset by (simp add: members_reference_groups_def)
  have 3: "one_group_per_student st'" using o by (simp add: one_group_per_student_def)
  have 4: "quantity_is_member_count st'"
    using q by (simp add: quantity_is_member_count_def gs key)
  have 5: "leader_flags_match st'"
    using fl by (simp add: leader_flags_match_def gs key)
  have 6: "leader_is_member st'"
    using l by (simp add: leader_is_member_def gs key)
  from 1 2 3 4 5 6 show ?thesis by (simp add: consistent_def)
qed

lemma consistent_add:
  assumes c: "consistent st"
    and g: "g \<in> set (groups st)" "g_id g = group_id"
    and nomem: "student_id \<notin> m_student_id ` set (members st)"
  shows "consistent (st\<lparr>members := members st @
             [\<lparr>m_group_id = group_id, m_student_id = student_id, m_is_leader = False\<rparr>],
           groups := map (\<lambda>x. if g_id x = group_id
                                then x\<lparr>g_quantity := g_quantity x + 1\<rparr> else x) (groups st)\<rparr>)"
    (is "consistent ?st'")
proof (rule consistent_mapI [where st = st and
      f = "\<lambda>x. if g_id x = group_id then x\<lparr>g_quantity := g_quantity x + 1\<rparr> else x"])
  from c have lead: "\<forall>x\<in>set (groups st). \<exists>m\<in>set (members st).
      m_group_id m = g_id x \<and> m_student_id m = g_leader_id x"
    by (simp add: inv_defs)
  have neq: "g_leader_id x \<noteq> student_id" if "x \<in> set (groups st)" for x
    using lead that nomem by force
  show "keys_distinct st" using c by (simp add: consistent_def)
  show "groups ?st' = map (\<lambda>x. if g_id x = group_id
      then x\<lparr>g_quantity := g_quantity x + 1\<rparr> else x) (groups st)" by simp
  show "\<forall>m\<in>set (members ?st'). m_group_id m \<in> g_id ` set (groups st)"
    using c g by (auto simp: consistent_def members_reference_groups_def)
  show "distinct (map m_student_id (members ?st'))"
    using c nomem by (simp add: consistent_def one_group_per_student_def)
  show "\<forall>x\<in>set (groups st). g_quantity (if g_id x = group_id
      then x\<lparr>g_quantity := g_quantity x + 1\<rparr> else x) =
      int (length (filter (\<lambda>m. m_group_id m = g_id x) (members ?st')))"
    using c by (auto simp: consistent_def quantity_is_member_count_def)
  show "\<forall>x\<in>set (groups st). \<forall>m\<in>set (members ?st'). m_group_id m = g_id x \<longrightarrow>
      (m_is_leader m \<longleftrightarrow> m_student_id m = g_leader_id (if g_id x = group_id
        then x\<lparr>g_quantity := g_quantity x + 1\<rparr> else x))"
    using c neq by (auto simp: consistent_def leader_flags_match_def)
  show "\<forall>x\<in>set (groups st). \<exists>m\<in>set (members ?st'). m_group_id m = g_id x \<and>
      m_student_id m = g_leader_id (if g_id x = group_id
        then x\<lparr>g_quantity := g_quantity x + 1\<rparr> else x)"
    using lead by auto
qed simp

lemma consistent_remove:
  assumes c: "consistent st"
    and g: "g \<in> set (groups st)" "g_id g = group_id"
    and mi: "mi < length (members st)" "m_group_id (members st ! mi) = group_id"
      "m_student_id (members st ! mi) \<noteq> g_leader_id g"
  shows "consistent (st\<lparr>members := remove_nth mi (members st),
           groups := map (\<lambda>x. if g_id x = group_id
                                then x\<lparr>g_quantity := g_quantity x - 1\<rparr> else x) (groups st)\<rparr>)"
    (is "consistent ?st'")
proof (rule consistent_mapI [where st = st and
      f = "\<lambda>x. if g_id x = group_id then x\<lparr>g_quantity := g_quantity x - 1\<rparr> else x"])
  from c have kd: "distinct (map g_id (groups st))" by (simp add: inv_defs)
  from c have ref: "\<forall>m\<in>set (members st). m_group_id m \<in> g_id ` set (groups st)"
    by (simp add: inv_defs)
  from c have od: "distinct (map m_student_id (members st))" by (simp add: inv_defs)
  from c have qu: "\<forall>x\<in>set (groups st).
      g_quantity x = int (length (filter (\<lambda>m. m_group_id m = g_id x) (members st)))"
    by (simp add: inv_defs)
  from c have fl: "\<forall>x\<in>set (groups st). \<forall>m\<in>set (members st).
      m_group_id m = g_id x \<longrightarrow> (m_is_leader m \<longleftrightarrow> m_student_id m = g_leader_id x)"
    by (simp add: inv_defs)
  from c have lead: "\<forall>x\<in>set (groups st). \<exists>m\<in>set (members st).
      m_group_id m = g_id x \<and> m_student_id m = g_leader_id x"
    by (simp add: inv_defs)
  have sub: "set (remove_nth mi (members st)) \<subseteq> set (members st)"
    by (rule set_remove_nth_subset)
  have same: "x = g" if "x \<in> set (groups st)" "g_id x = group_id" for x
    using distinct_key_unique [OF kd that(1) g(1)] that(2) g(2) by simp
  show "keys_distinct st" using c by (simp add: consistent_def)
  show "groups ?st' = map (\<lambda>x. if g_id x = group_id
      then x\<lparr>g_quantity := g_quantity x - 1\<rparr> else x) (groups st)" by simp
  show "\<forall>m\<in>set (members ?st'). m_group_id m \<in> g_id ` set (groups st)"
    using ref sub by auto
  show "distinct (map m_student_id (members ?st'))"
    using od mi(1) by (simp add: remove_nth_as_filter [OF od mi(1)] distinct_map_filter)
  show "\<forall>x\<in>set (groups st). g_quantity (if g_id x = group_id
      then x\<lparr>g_quantity := g_quantity x - 1\<rparr> else x) =
      int (length (filter (\<lambda>m. m_group_id m = g_id x) (members ?st')))"
  proof
    fix x assume x: "x \<in> set (groups st)"
    have "length (filter (\<lambda>m. m_group_id m = g_id x) (members st)) =
        length (filter (\<lambda>m. m_group_id m = g_id x) (remove_nth mi (members st))) +
        (if m_group_id (members st ! mi) = g_id x then 1 else 0)"
      by (rule length_filter_remove_nth [OF mi(1)])
    with qu x mi(2) show "g_quantity (if g_id x = group_id
      then x\<lparr>g_quantity := g_quantity x - 1\<rparr> else x) =
      int (length (filter (\<lambda>m. m_group_id m = g_id x) (members ?st')))"
      by auto
  qed
  show "\<forall>x\<in>set (groups st). \<forall>m\<in>set (members ?st'). m_group_id m = g_id x \<longrightarrow>
      (m_is_leader m \<longleftrightarrow> m_student_id m = g_leader_id (if g_id x = group_id
        then x\<lparr>g_quantity := g_quantity x - 1\<rparr> else x))"
    using fl sub by auto
  show "\<forall>x\<in>set (groups st). \<exists>m\<in>set (members ?st'). m_group_id m = g_id x \<and>
      m_student_id m = g_leader_id (if g_id x = group_id
        then x\<lparr>g_quantity := g_quantity x - 1\<rparr> else x)"
  proof
    fix x assume x: "x \<in> set (groups st)"
    from lead x obtain m0 where m0: "m0 \<in> set (members st)" "m_group_id m0 = g_id x"
      "m_student_id m0 = g_leader_id x" by blast
    have "m0 \<noteq> members st ! mi"
    proof (cases "g_id x = group_id")
      case True
      with same x have "x = g" by simp
      with m0(3) mi(3) show ?thesis by auto
    next
      case False
      with m0(2) mi(2) show ?thesis by auto
    qed
    with m0(1) mi(1) have "m0 \<in> set (remove_nth mi (members st))"
      by (simp add: in_set_remove_nth)
    with m0 show "\<exists>m\<in>set (members ?st'). m_group_id m = g_id x \<and>
      m_student_id m = g_leader_id (if g_id x = group_id
        then x\<lparr>g_quantity := g_quantity x - 1\<rparr> else x)"
      by auto
  qed
qed simp

lemma consistent_relabel:
  assumes c: "consistent st"
    and f: "\<And>x. g_id (f x) = g_id x" "\<And>x. g_leader_id (f x) = g_leader_id x"
      "\<And>x. g_quantity (f x) = g_quantity x"
    and gs: "groups st' = map f (groups st)" and ms: "members st' = members st"
  shows "consistent st'"
  using c
  by (intro consistent_mapI [where st = st and f = f and st' = st'])
    (simp_all add: inv_defs f gs ms)

lemma consistent_delete:
  assumes c: "consistent st"
  shows "consistent (st\<lparr>invites := vs,
           members := filter (\<lambda>m. m_group_id m \<noteq> group_id) (members st),
           groups := filter (\<lambda>x. g_id x \<noteq> group_id) (groups st)\<rparr>)"
    (is "consistent ?st'")
proof -
  from c have kd: "distinct (map g_id (groups st))" by (simp add: inv_defs)
  from c have ref: "\<forall>m\<in>set (members st). m_group_id m \<in> g_id ` set (groups st)"
    by (simp add: inv_defs)
  from c have od: "distinct (map m_student_id (members st))" by (simp add: inv_defs)
  from c have qu: "\<forall>x\<in>set (groups st).
      g_quantity x = int (length (filter (\<lambda>m. m_group_id m = g_id x) (members st)))"
    by (simp add: inv_defs)
  from c have fl: "\<forall>x\<in>set (groups st). \<forall>m\<in>set (members st).
      m_group_id m = g_id x \<longrightarrow> (m_is_leader m \<longleftrightarrow> m_student_id m = g_leader_id x)"
    by (simp add: inv_defs)
  from c have lead: "\<forall>x\<in>set (groups st). \<exists>m\<in>set (members st).
      m_group_id m = g_id x \<and> m_student_id m = g_leader_id x"
    by (simp add: inv_defs)
  have cnt: "filter (\<lambda>m. m_group_id m = g_id x)
        (filter (\<lambda>m. m_group_id m \<noteq> group_id) (members st)) =
      filter (\<lambda>m. m_group_id m = g_id x) (members st)" if "g_id x \<noteq> group_id" for x :: group
    using that by (auto intro: filter_cong)
  have 1: "keys_distinct ?st'" using kd by (simp add: keys_distinct_def distinct_map_filter)
  have 2: "members_reference_groups ?st'"
    using ref by (fastforce simp: members_reference_groups_def)
  have 3: "one_group_per_student ?st'"
    using od by (simp add: one_group_per_student_def distinct_map_filter)
  have 4: "quantity_is_member_count ?st'"
    using qu cnt by (simp add: quantity_is_member_count_def)
  have 5: "leader_flags_match ?st'" using fl by (simp add: leader_flags_match_def)
  have 6: "leader_is_member ?st'" using lead by (fastforce simp: leader_is_member_def)
  from 1 2 3 4 5 6 show ?thesis by (simp add: consistent_def)
qed

lemma consistent_transfer:
  assumes c: "consistent st"
    and g: "g \<in> set (groups st)" "g_id g = group_id" "g_leader_id g = cur"
    and mn: "mn \<in> set (members st)" "m_group_id mn = group_id" "m_student_id mn = new"
  shows "consistent (st\<lparr>members := map (\<lambda>m. if m_student_id m = new then m\<lparr>m_is_leader := True\<rparr>
                               else if m_student_id m = cur then m\<lparr>m_is_leader := False\<rparr>
                               else m) (members st),
           groups := map (\<lambda>x. if g_id x = group_id then x\<lparr>g_leader_id := new\<rparr> else x)
                       (groups st)\<rparr>)"
    (is "consistent ?st'")
proof (rule consistent_mapI [where st = st and
      f = "\<lambda>x. if g_id x = group_id then x\<lparr>g_leader_id := new\<rparr> else x"])
  let ?h = "\<lambda>m. if m_student_id m = new then m\<lparr>m_is_leader := True\<rparr>
                 else if m_student_id m = cur then m\<lparr>m_is_leader := False\<rparr> else m"
  from c have kd: "distinct (map g_id (groups st))" by (simp add: inv_defs)
  from c have ref: "\<forall>m\<in>set (members st). m_group_id m \<in> g_id ` set (groups st)"
    by (simp add: inv_defs)
  from c have od: "distinct (map m_student_id (members st))" by (simp add: inv_defs)
  from c have qu: "\<forall>x\<in>set (groups st).
      g_quantity x = int (length (filter (\<lambda>m. m_group_id m = g_id x) (members st)))"
    by (simp add: inv_defs)
  from c have fl: "\<forall>x\<in>set (groups st). \<forall>m\<in>set (members st).
      m_group_id m = g_id x \<longrightarrow> (m_is_leader m \<longleftrightarrow> m_student_id m = g_leader_id x)"
    by (simp add: inv_defs)
  from c have lead: "\<forall>x\<in>set (groups st). \<exists>m\<in>set (members st).
      m_group_id m = g_id x \<and> m_student_id m = g_leader_id x"
    by (simp add: inv_defs)
  have same: "x = g" if "x \<in> set (groups st)" "g_id x = group_id" for x
    using distinct_key_unique [OF kd that(1) g(1)] that(2) g(2) by simp
  from lead g obtain mc where mc: "mc \<in> set (members st)" "m_group_id mc = group_id"
    "m_student_id mc = cur" by force
  have is_new: "m = mn" if "m \<in> set (members st)" "m_student_id m = new" for m
    using distinct_key_unique [OF od that(1) mn(1)] that(2) mn(3) by simp
  have is_cur: "m = mc" if "m \<in> set (members st)" "m_student_id m = cur" for m
    using distinct_key_unique [OF od that(1) mc(1)] that(2) mc(3) by simp
  have hg: "m_group_id (?h m) = m_group_id m" and hs: "m_student_id (?h m) = m_student_id m"
    for m by simp_all
  have len: "length (filter (\<lambda>m. m_group_id m = a) (map ?h (members st))) =
      length (filter (\<lambda>m. m_group_id m = a) (members st))" for a
    by (simp add: filter_map comp_def hg del: if_split)
  show "keys_distinct st" using c by (simp add: consistent_def)
  show "groups ?st' = map (\<lambda>x. if g_id x = group_id then x\<lparr>g_leader_id := new\<rparr> else x)
      (groups st)" by simp
  show "\<forall>m\<in>set (members ?st'). m_group_id m \<in> g_id ` set (groups st)"
    using ref by auto
  show "distinct (map m_student_id (members ?st'))"
  proof -
    have e: "map (m_student_id \<circ> ?h) (members st) = map m_student_id (members st)"
      by (rule map_cong [OF refl]) simp
    have "distinct (map m_student_id (map ?h (members st)))"
      unfolding map_map e by (rule od)
    then show ?thesis by simp
  qed
  show "\<forall>x\<in>set (groups st). g_quantity (if g_id x = group_id
      then x\<lparr>g_leader_id := new\<rparr> else x) =
      int (length (filter (\<lambda>m. m_group_id m = g_id x) (members ?st')))"
    using qu len by auto
  show "\<forall>x\<in>set (groups st). \<forall>m\<in>set (members ?st'). m_group_id m = g_id x \<longrightarrow>
      (m_is_leader m \<longleftrightarrow> m_student_id m = g_leader_id (if g_id x = group_id
        then x\<lparr>g_leader_id := new\<rparr> else x))"
  proof (intro ballI impI)
    fix x m' assume x: "x \<in> set (groups st)" and m': "m' \<in> set (members ?st')"
      and grp: "m_group_id m' = g_id x"
    from m' obtain m where m: "m \<in> set (members st)" "m' = ?h m" by auto
    from grp m(2) have mg: "m_group_id m = g_id x" by (simp split: if_splits)
    show "m_is_leader m' \<longleftrightarrow> m_student_id m' = g_leader_id (if g_id x = group_id
        then x\<lparr>g_leader_id := new\<rparr> else x)"
    proof (cases "g_id x = group_id")
      case True
      with same x have xg: "x = g" by simp
      from fl x m(1) mg have "m_is_leader m \<longleftrightarrow> m_student_id m = g_leader_id x" by blast
      with xg g(3) True m(2) show ?thesis by auto
    next
      case False
      have n1: "m_student_id m \<noteq> new" using is_new [OF m(1)] mn(2) mg False by auto
      have n2: "m_student_id m \<noteq> cur" using is_cur [OF m(1)] mc(2) mg False by auto
      from n1 n2 m(2) have "m' = m" by simp
      with fl x m(1) mg False show ?thesis by auto
    qed
  qed
  show "\<forall>x\<in>set (groups st). \<exists>m\<in>set (members ?st'). m_group_id m = g_id x \<and>
      m_student_id m = g_leader_id (if g_id x = group_id
        then x\<lparr>g_leader_id := new\<rparr> else x)"
  proof
    fix x assume x: "x \<in> set (groups st)"
    show "\<exists>m\<in>set (members ?st'). m_group_id m = g_id x \<and>
      m_student_id m = g_leader_id (if g_id x = group_id
        then x\<lparr>g_leader_id := new\<rparr> else x)"
    proof (cases "g_id x = group_id")
      case True
      have "?h mn \<in> set (members ?st')" using mn(1) by simp
      moreover have "m_group_id (?h mn) = g_id x" using mn(2) True by simp
      moreover have "m_student_id (?h mn) = new" using mn(3) by simp
      ultimately show ?thesis using True by (intro bexI [where x = "?h mn"]) simp_all
    next
      case False
      from lead x obtain m0 where m0: "m0 \<in> set (members st)" "m_group_id m0 = g_id x"
        "m_student_id m0 = g_leader_id x" by blast
      have "?h m0 \<in> set (members ?st')" using m0(1) by simp
      moreover have "m_group_id (?h m0) = g_id x" using m0(2) by simp
      moreover have "m_student_id (?h m0) = g_leader_id x" using m0(3) by simp
      ultimately show ?thesis using False by (intro bexI [where x = "?h m0"]) simp_all
    qed
  qed
qed simp

section \<open>Every request keeps the store consistent\<close>

lemma group_lookup:
  assumes "first_idx (\<lambda>g. g_id g = group_id) gs = Some gi"
  shows "gi < length gs" "g_id (gs ! gi) = group_id" "gs ! gi \<in> set gs"
  using first_idx_Some [OF assms] by auto

lemma create_group_consistent:
  assumes c: "consistent st" and fresh: "new_id \<notin> set (map g_id (groups st))"
  shows "consistent (committed (snd (create_group (begin_session st) new_id name user_id)))"
proof (cases "first_idx (\<lambda>m. m_student_id m = user_id) (members st)")
  case (Some i)
  then show ?thesis using c by (simp add: create_group_def begin_session_def)
next
  case None
  then have nomem: "user_id \<notin> m_student_id ` set (members st)"
    by (auto simp: first_idx_None)
  from fresh have fr: "new_id \<notin> g_id ` set (groups st)" by simp
  have "committed (snd (create_group (begin_session st) new_id name user_id)) =
      st\<lparr>groups := groups st @
             [\<lparr>g_id = new_id, g_name = name, g_leader_id = user_id, g_quantity = 1,
               g_thesis_id = None\<rparr>],
           members := members st @
             [\<lparr>m_group_id = new_id, m_student_id = user_id, m_is_leader = True\<rparr>]\<rparr>"
    using None
    by (simp add: create_group_def begin_session_def Let_def set_groups_def set_members_def
        db_commit_def)
  then show ?thesis using consistent_create [OF c fr nomem] by simp
qed

lemma add_member_consistent:
  assumes c: "consistent st"
  shows "consistent (committed (snd (add_member (begin_session st) group_id student_id leader_id)))"
proof (cases "first_idx (\<lambda>g. g_id g = group_id) (groups st)")
  case None
  then show ?thesis using c by (simp add: add_member_def begin_session_def)
next
  case (Some gi)
  note gi = group_lookup [OF Some]
  from c have kd: "distinct (map g_id (groups st))" by (simp add: inv_defs)
  show ?thesis
  proof (cases "g_leader_id (groups st ! gi) = leader_id \<and> g_quantity (groups st ! gi) < 4 \<and>
      student_id \<notin> m_student_id ` set (members st)")
    case False
    then show ?thesis using c Some
      by (auto simp: add_member_def begin_session_def Let_def is_member_of_any_group_def
          first_idx_None)
  next
    case True
    have upd: "(groups st)[gi := (groups st ! gi)\<lparr>g_quantity := g_quantity (groups st ! gi) + 1\<rparr>]
        = map (\<lambda>x. if g_id x = group_id then x\<lparr>g_quantity := g_quantity x + 1\<rparr> else x)
            (groups st)"
      using update_as_map [OF kd gi(1), where f = "\<lambda>x. x\<lparr>g_quantity := g_quantity x + 1\<rparr>"]
        gi(2) by simp
    have "committed (snd (add_member (begin_session st) group_id student_id leader_id)) =
      st\<lparr>members := members st @
             [\<lparr>m_group_id = group_id, m_student_id = student_id, m_is_leader = False\<rparr>],
           groups := map (\<lambda>x. if g_id x = group_id
                                then x\<lparr>g_quantity := g_quantity x + 1\<rparr> else x) (groups st)\<rparr>"
      using True Some upd
      by (auto simp: add_member_def begin_session_def Let_def is_member_of_any_group_def
          first_idx_None set_groups_def set_members_def db_commit_def)
    then show ?thesis using consistent_add [OF c gi(3) gi(2), of student_id] True by simp
  qed
qed

lemma remove_member_consistent:
  assumes c: "consistent st"
  shows "consistent (committed (snd (remove_member (begin_session st) group_id member_id leader_id)))"
proof (cases "first_idx (\<lambda>g. g_id g = group_id) (groups st)")
  case None
  then show ?thesis using c by (simp add: remove_member_def begin_session_def)
next
  case (Some gi)
  note gi = group_lookup [OF Some]
  from c have kd: "distinct (map g_id (groups st))" by (simp add: inv_defs)
  show ?thesis
  proof (cases "first_idx (\<lambda>m. m_group_id m = group_id \<and> m_student_id m = member_id)
      (members st)")
    case None
    then show ?thesis using c Some
      by (simp add: remove_member_def begin_session_def Let_def)
  next
    case (Some mi)
    from first_idx_Some [OF Some] have mi: "mi < length (members st)"
      "m_group_id (members st ! mi) = group_id" "m_student_id (members st ! mi) = member_id"
      by auto
    show ?thesis
    proof (cases "g_leader_id (groups st ! gi) = leader_id \<and> member_id \<noteq> leader_id")
      case False
      then show ?thesis using c \<open>first_idx (\<lambda>g. g_id g = group_id) (groups st) = Some gi\<close>
        by (auto simp: remove_member_def begin_session_def Let_def)
    next
      case True
      have upd: "(groups st)[gi := (groups st ! gi)\<lparr>g_quantity := g_quantity (groups st ! gi) - 1\<rparr>]
        = map (\<lambda>x. if g_id x = group_id then x\<lparr>g_quantity := g_quantity x - 1\<rparr> else x)
            (groups st)"
        using update_as_map [OF kd gi(1), where f = "\<lambda>x. x\<lparr>g_quantity := g_quantity x - 1\<rparr>"]
          gi(2) by simp
      have "committed (snd (remove_member (begin_session st) group_id member_id leader_id)) =
        st\<lparr>members := remove_nth mi (members st),
           groups := map (\<lambda>x. if g_id x = group_id
                                then x\<lparr>g_quantity := g_quantity x - 1\<rparr> else x) (groups st)\<rparr>"
        using True Some \<open>first_idx (\<lambda>g. g_id g = group_id) (groups st) = Some gi\<close> upd
        by (simp add: remove_member_def begin_session_def Let_def set_groups_def
            set_members_def db_commit_def)
      moreover have "m_student_id (members st ! mi) \<noteq> g_leader_id (groups st ! gi)"
        using True mi(3) by simp
      ultimately show ?thesis
        using consistent_remove [OF c gi(3) gi(2) mi(1) mi(2)] by simp
    qed
  qed
qed

lemma transfer_leader_consistent:
  assumes c: "consistent st"
  shows "consistent (committed (snd (transfer_leader (begin_session st) group_id new cur)))"
proof (cases "first_idx (\<lambda>g. g_id g = group_id) (groups st)")
  case None
  then show ?thesis using c by (simp add: transfer_leader_def begin_session_def)
next
  case (Some gi)
  note gl = Some
  note gi = group_lookup [OF Some]
  from c have kd: "distinct (map g_id (groups st))" by (simp add: inv_defs)
  from c have od: "distinct (map m_student_id (members st))" by (simp add: inv_defs)
  let ?C = "first_idx (\<lambda>m. m_student_id m = cur \<and> m_group_id m = group_id) (members st)"
  let ?N = "first_idx (\<lambda>m. m_student_id m = new \<and> m_group_id m = group_id) (members st)"
  show ?thesis
  proof (cases "g_leader_id (groups st ! gi) = cur \<and> ?C \<noteq> None \<and> ?N \<noteq> None")
    case False
    then show ?thesis using c gl
      by (auto simp: transfer_leader_def begin_session_def Let_def split: option.splits)
  next
    case True
    then obtain ci ni where ci: "?C = Some ci" and ni: "?N = Some ni" by auto
    from first_idx_Some [OF ci] have ci': "ci < length (members st)"
      "m_student_id (members st ! ci) = cur" by auto
    from first_idx_Some [OF ni] have ni': "ni < length (members st)"
      "m_student_id (members st ! ni) = new" "m_group_id (members st ! ni) = group_id" by auto
    let ?h1 = "\<lambda>m. if m_student_id m = cur then m\<lparr>m_is_leader := False\<rparr> else m"
    let ?h2 = "\<lambda>m. if m_student_id m = new then m\<lparr>m_is_leader := True\<rparr> else m"
    let ?ms1 = "(members st)[ci := (members st ! ci)\<lparr>m_is_leader := False\<rparr>]"
    have ms1: "?ms1 = map ?h1 (members st)"
      using update_as_map [OF od ci'(1), where f = "\<lambda>m. m\<lparr>m_is_leader := False\<rparr>"] ci'(2)
      by simp
    have e: "map (m_student_id \<circ> ?h1) (members st) = map m_student_id (members st)"
      by (rule map_cong [OF refl]) simp
    have od1: "distinct (map m_student_id ?ms1)"
      unfolding ms1 map_map e by (rule od)
    have ni1: "ni < length ?ms1" using ni'(1) by simp
    have sn1: "m_student_id (?ms1 ! ni) = new"
      using ni' ci' by (cases "ni = ci") auto
    have ms2: "?ms1[ni := (?ms1 ! ni)\<lparr>m_is_leader := True\<rparr>] = map ?h2 ?ms1"
      using update_as_map [OF od1 ni1, where f = "\<lambda>m. m\<lparr>m_is_leader := True\<rparr>"] sn1
      by simp
    have comp: "map ?h2 (map ?h1 (members st)) =
        map (\<lambda>m. if m_student_id m = new then m\<lparr>m_is_leader := True\<rparr>
                 else if m_student_id m = cur then m\<lparr>m_is_leader := False\<rparr> else m) (members st)"
      by (rule nth_equalityI) auto
    have upd: "(groups st)[gi := (groups st ! gi)\<lparr>g_leader_id := new\<rparr>]
        = map (\<lambda>x. if g_id x = group_id then x\<lparr>g_leader_id := new\<rparr> else x) (groups st)"
      using update_as_map [OF kd gi(1), where f = "\<lambda>x. x\<lparr>g_leader_id := new\<rparr>"] gi(2)
      by simp
    have "committed (snd (transfer_leader (begin_session st) group_id new cur)) =
        st\<lparr>members := ?ms1[ni := (?ms1 ! ni)\<lparr>m_is_leader := True\<rparr>],
           groups := (groups st)[gi := (groups st ! gi)\<lparr>g_leader_id := new\<rparr>]\<rparr>"
      using True gl ci ni
      by (simp add: transfer_leader_def begin_session_def Let_def set_groups_def
          set_members_def db_commit_def)
    moreover have "?ms1[ni := (?ms1 ! ni)\<lparr>m_is_leader := True\<rparr>] =
        map (\<lambda>m. if m_student_id m = new then m\<lparr>m_is_leader := True\<rparr>
                 else if m_student_id m = cur then m\<lparr>m_is_leader := False\<rparr> else m) (members st)"
    proof -
      have "?ms1[ni := (?ms1 ! ni)\<lparr>m_is_leader := True\<rparr>] = map ?h2 ?ms1" by (rule ms2)
      also have "\<dots> = map ?h2 (map ?h1 (members st))" by (simp only: ms1)
      also note comp
      finally show ?thesis .
    qed
    ultimately have "committed (snd (transfer_leader (begin_session st) group_id new cur)) =
        st\<lparr>members := map (\<lambda>m. if m_student_id m = new then m\<lparr>m_is_leader := True\<rparr>
                 else if m_student_id m = cur then m\<lparr>m_is_leader := False\<rparr> else m) (members st),
           groups := map (\<lambda>x. if g_id x = group_id then x\<lparr>g_leader_id := new\<rparr> else x)
                       (groups st)\<rparr>"
      by (simp only: upd)
    moreover have "members st ! ni \<in> set (members st)" using ni'(1) by simp
    ultimately show ?thesis
      using consistent_transfer [OF c gi(3) gi(2) _ _ ni'(3) ni'(2), of cur] True by simp
  qed
qed

lemma update_group_name_consistent:
  assumes c: "consistent st"
  shows "consistent (committed (snd (update_group_name (begin_session st) group_id new_name
           user_id)))"
proof (cases "first_idx (\<lambda>g. g_id g = group_id) (groups st)")
  case None
  then show ?thesis using c by (simp add: update_group_name_def begin_session_def)
next
  case (Some gi)
  note gi = group_lookup [OF Some]
  from c have kd: "distinct (map g_id (groups st))" by (simp add: inv_defs)
  have upd: "(groups st)[gi := (groups st ! gi)\<lparr>g_name := new_name\<rparr>]
      = map (\<lambda>x. if g_id x = group_id then x\<lparr>g_name := new_name\<rparr> else x) (groups st)"
    using update_as_map [OF kd gi(1), where f = "\<lambda>x. x\<lparr>g_name := new_name\<rparr>"] gi(2)
    by simp
  show ?thesis
  proof (cases "g_leader_id (groups st ! gi) = user_id")
    case False
    then show ?thesis using c Some
      by (simp add: update_group_name_def begin_session_def Let_def)
  next
    case True
    have "committed (snd (update_group_name (begin_session st) group_id new_name user_id)) =
        st\<lparr>groups := (groups st)[gi := (groups st ! gi)\<lparr>g_name := new_name\<rparr>]\<rparr>"
      using True Some
      by (simp add: update_group_name_def begin_session_def Let_def set_groups_def
          db_commit_def)
    then have eq: "committed (snd (update_group_name (begin_session st) group_id new_name
        user_id)) = st\<lparr>groups := map (\<lambda>x. if g_id x = group_id
          then x\<lparr>g_name := new_name\<rparr> else x) (groups st)\<rparr>"
      by (simp only: upd)
    show ?thesis
      by (rule consistent_relabel [OF c, where
          f = "\<lambda>x. if g_id x = group_id then x\<lparr>g_name := new_name\<rparr> else x"])
        (simp_all add: eq)
  qed
qed

lemma register_thesis_consistent:
  assumes c: "consistent st"
  shows "consistent (committed (snd (register_thesis_for_group (begin_session st) group_id
           thesis_id user_id)))"
proof (cases "first_idx (\<lambda>g. g_id g = group_id) (groups st)")
  case None
  then show ?thesis using c by (simp add: register_thesis_for_group_def begin_session_def)
next
  case (Some gi)
  note gi = group_lookup [OF Some]
  from c have kd: "distinct (map g_id (groups st))" by (simp add: inv_defs)
  have upd: "(groups st)[gi := (groups st ! gi)\<lparr>g_thesis_id := Some thesis_id\<rparr>]
      = map (\<lambda>x. if g_id x = group_id then x\<lparr>g_thesis_id := Some thesis_id\<rparr> else x)
          (groups st)"
    using update_as_map [OF kd gi(1), where f = "\<lambda>x. x\<lparr>g_thesis_id := Some thesis_id\<rparr>"]
      gi(2) by simp
  let ?T = "first_idx (\<lambda>t. t_id t = thesis_id) (theses st)"
  let ?H = "first_idx (\<lambda>g. g_thesis_id g = Some thesis_id) (groups st)"
  show ?thesis
  proof (cases "g_leader_id (groups st ! gi) = user_id \<and> g_thesis_id (groups st ! gi) = None \<and>
      ?T \<noteq> None \<and> ?H = None")
    case False
    then show ?thesis using c Some
      by (auto simp: register_thesis_for_group_def begin_session_def Let_def
          split: option.splits)
  next
    case True
    then obtain ti where ti: "?T = Some ti" by auto
    show ?thesis
    proof (rule consistent_relabel [OF c, where
          f = "\<lambda>x. if g_id x = group_id then x\<lparr>g_thesis_id := Some thesis_id\<rparr> else x"])
      show "groups (committed (snd (register_thesis_for_group (begin_session st) group_id
           thesis_id user_id))) =
          map (\<lambda>x. if g_id x = group_id then x\<lparr>g_thesis_id := Some thesis_id\<rparr> else x)
            (groups st)"
        using True Some ti upd
        by (simp add: register_thesis_for_group_def begin_session_def Let_def set_groups_def
            set_theses_def db_commit_def)
      show "members (committed (snd (register_thesis_for_group (begin_session st) group_id
           thesis_id user_id))) = members st"
        using True Some ti
        by (simp add: register_thesis_for_group_def begin_session_def Let_def set_groups_def
            set_theses_def db_commit_def)
    qed simp_all
  qed
qed

lemma delete_group_consistent:
  assumes c: "consistent st"
  shows "consistent (committed (snd (delete_group (begin_session st) group_id user_id)))"
proof (cases "first_idx (\<lambda>g. g_id g = group_id) (groups st)")
  case None
  then show ?thesis using c by (simp add: delete_group_def begin_session_def)
next
  case (Some gi)
  note gi = group_lookup [OF Some]
  from c have kd: "distinct (map g_id (groups st))" by (simp add: inv_defs)
  have rm: "remove_nth gi (groups st) = filter (\<lambda>x. g_id x \<noteq> group_id) (groups st)"
    using remove_nth_as_filter [OF kd gi(1)] gi(2) by simp
  show ?thesis
  proof (cases "g_leader_id (groups st ! gi) = user_id \<and> g_thesis_id (groups st ! gi) = None")
    case False
    then show ?thesis using c Some
      by (auto simp: delete_group_def begin_session_def Let_def)
  next
    case True
    have "committed (snd (delete_group (begin_session st) group_id user_id)) =
        st\<lparr>invites := filter (\<lambda>v. i_group_id v \<noteq> group_id) (invites st),
           members := filter (\<lambda>m. m_group_id m \<noteq> group_id) (members st),
           groups := filter (\<lambda>x. g_id x \<noteq> group_id) (groups st)\<rparr>"
      using True Some rm
      by (simp add: delete_group_def begin_session_def Let_def set_groups_def set_members_def
          set_invites_def db_commit_def)
    then show ?thesis using consistent_delete [OF c] by simp
  qed
qed

lemma snd_failure: "snd (failure r) = snd r"
  by (simp add: failure_def split: sum.splits)

lemma call_consistent:
  assumes "consistent st" and "key_is_fresh c st"
  shows "consistent (committed (snd (call c (begin_session st))))"
proof (cases c)
  case (CreateGroup new_id name user_id)
  with assms show ?thesis by (simp add: snd_failure create_group_consistent)
next
  case (AddMember group_id student_id leader_id)
  with assms show ?thesis by (simp add: snd_failure add_member_consistent)
next
  case (RemoveMember group_id member_id leader_id)
  with assms show ?thesis by (simp add: snd_failure remove_member_consistent)
next
  case (TransferLeader group_id new_leader_id current_leader_id)
  with assms show ?thesis by (simp add: snd_failure transfer_leader_consistent)
next
  case (UpdateGroupName group_id new_name user_id)
  with assms show ?thesis by (simp add: snd_failure update_group_name_consistent)
next
  case (DeleteGroup group_id user_id)
  with assms show ?thesis by (simp add: snd_failure delete_group_consistent)
next
  case (RegisterThesis group_id thesis_id user_id)
  with assms show ?thesis by (simp add: snd_failure register_thesis_consistent)
qed

lemma step_consistent:
  assumes "consistent st" and "step e st = Some st'"
  shows "consistent st'"
proof (cases e)
  case (Call c)
  show ?thesis
  proof (cases "key_is_fresh c st")
    case True
    with assms(2) Call have "st' = committed (snd (call c (begin_session st)))" by simp
    with call_consistent [OF assms(1) True] show ?thesis by simp
  next
    case False
    with assms(2) Call show ?thesis by simp
  qed
next
  case (External vs ts infs sis)
  with assms(2) have "groups st' = groups st" "members st' = members st" by auto
  from consistent_cong [OF this] assms(1) show ?thesis by simp
qed

lemma run_consistent: "consistent st \<Longrightarrow> run es st = Some st' \<Longrightarrow> consistent st'"
proof (induction es arbitrary: st)
  case Nil
  then show ?case by simp
next
  case (Cons e es)
  from Cons.prems(2) obtain st1 where s1: "step e st = Some st1" and r: "run es st1 = Some st'"
    by (auto split: option.splits)
  from step_consistent [OF Cons.prems(1) s1] have "consistent st1" .
  from Cons.IH [OF this r] show ?case .
qed

lemma reachable_consistent: "initial st0 \<Longrightarrow> run es st0 = Some st \<Longrightarrow> consistent st"
  using consistent_initial run_consistent by blast

lemma filter_key_singleton:
  "distinct (map k xs) \<Longrightarrow> x \<in> set xs \<Longrightarrow> filter (\<lambda>y. k y = k x) xs = [x]"
proof (induction xs)
  case Nil
  then show ?case by simp
next
  case (Cons y ys)
  show ?case
  proof (cases "x = y")
    case True
    have "\<forall>z\<in>set ys. k z \<noteq> k y"
      using distinct_map_Cons_neq [OF Cons.prems(1)] by blast
    then have "filter (\<lambda>z. k z = k y) ys = []" by (simp add: filter_empty_conv)
    with True show ?thesis by simp
  next
    case False
    with Cons.prems have x: "x \<in> set ys" and d: "distinct (map k ys)" by auto
    from distinct_map_Cons_neq [OF Cons.prems(1) x] have "k y \<noteq> k x" by simp
    with Cons.IH [OF d x] show ?thesis by simp
  qed
qed

lemma consistent_leaders:
  assumes c: "consistent st" and g: "g \<in> set (groups st)"
  shows "leaders_of st (g_id g) = [g_leader_id g]"
proof -
  from c have od: "distinct (map m_student_id (members st))" by (simp add: inv_defs)
  from c g have fl: "\<forall>m\<in>set (members st).
      m_group_id m = g_id g \<longrightarrow> (m_is_leader m \<longleftrightarrow> m_student_id m = g_leader_id g)"
    by (simp add: inv_defs)
  from c g obtain m0 where m0: "m0 \<in> set (members st)" "m_group_id m0 = g_id g"
    "m_student_id m0 = g_leader_id g" by (auto simp: inv_defs)
  have same: "m = m0" if "m \<in> set (members st)" "m_student_id m = g_leader_id g" for m
    using distinct_key_unique [OF od that(1) m0(1)] that(2) m0(3) by simp
  have "filter (\<lambda>m. m_group_id m = g_id g \<and> m_is_leader m) (members st) =
      filter (\<lambda>m. m_student_id m = m_student_id m0) (members st)"
  proof (rule filter_cong [OF refl])
    fix m assume m: "m \<in> set (members st)"
    show "(m_group_id m = g_id g \<and> m_is_leader m) = (m_student_id m = m_student_id m0)"
      using fl m m0 same [OF m] by auto
  qed
  also have "\<dots> = [m0]" by (rule filter_key_singleton [OF od m0(1)])
  finally show ?thesis using m0(3) by (simp add: leaders_of_def)
qed

lemma ex_trace_runs: "run ex_trace ex_empty = Some ex_final"
  by (simp add: ex_trace_def ex_empty_def ex_final_def begin_session_def failure_def
      create_group_def add_member_def remove_member_def transfer_leader_def
      is_member_of_any_group_def Let_def set_groups_def set_members_def db_commit_def
      remove_nth_def)

lemma ex_add_steps: "step (Call (AddMember 1 12 11)) ex_final = Some ex_after_add"
  by (simp add: ex_final_def ex_after_add_def begin_session_def failure_def add_member_def
      is_member_of_any_group_def Let_def set_groups_def set_members_def db_commit_def)

lemma ex_empty_initial: "initial ex_empty"
  by (simp add: initial_def ex_empty_def)

section \<open>The quantity of a group\<close>

text \<open>
  C5. In every store reached from a store without groups and members by requests of the
  service (and external writes to the other tables), the quantity of every group is the
  number of member rows with the group's id; every further step keeps it so; and a group
  is created with quantity 1 and exactly one member row, that of its creator.
\<close>

theorem quantity_counts_members:
  assumes "initial st0" and "run es st0 = Some st"
  shows "(\<forall>g\<in>set (groups st).
            g_quantity g = int (length (filter (\<lambda>m. m_group_id m = g_id g) (members st)))) \<and>
         (step e st = Some st' \<longrightarrow>
            (\<forall>g\<in>set (groups st').
               g_quantity g = int (length (filter (\<lambda>m. m_group_id m = g_id g) (members st'))))) \<and>
         (new_id \<notin> set (map g_id (groups st)) \<and>
          fst (create_group (begin_session st) new_id name user_id) = Inr g \<longrightarrow>
            g_quantity g = 1 \<and>
            get_members (snd (create_group (begin_session st) new_id name user_id)) new_id =
              [\<lparr>m_group_id = new_id, m_student_id = user_id, m_is_leader = True\<rparr>])"
proof -
  from reachable_consistent [OF assms] have c: "consistent st" .
  then have 1: "\<forall>g\<in>set (groups st).
      g_quantity g = int (length (filter (\<lambda>m. m_group_id m = g_id g) (members st)))"
    by (simp add: inv_defs)
  have 2: "\<forall>g\<in>set (groups st').
      g_quantity g = int (length (filter (\<lambda>m. m_group_id m = g_id g) (members st')))"
    if "step e st = Some st'"
    using step_consistent [OF c that] by (simp add: inv_defs)
  have 3: "g_quantity g = 1 \<and>
      get_members (snd (create_group (begin_session st) new_id name user_id)) new_id =
        [\<lparr>m_group_id = new_id, m_student_id = user_id, m_is_leader = True\<rparr>]"
    if fresh: "new_id \<notin> set (map g_id (groups st))"
      and ok: "fst (create_group (begin_session st) new_id name user_id) = Inr g"
  proof -
    from c have "\<forall>m\<in>set (members st). m_group_id m \<in> g_id ` set (groups st)"
      by (simp add: inv_defs)
    with fresh have none: "filter (\<lambda>m. m_group_id m = new_id) (members st) = []"
      by (auto simp: filter_empty_conv)
    show ?thesis
    proof (cases "first_idx (\<lambda>m. m_student_id m = user_id) (members st)")
      case (Some i)
      with ok show ?thesis by (simp add: create_group_def begin_session_def)
    next
      case None
      with ok none show ?thesis
        by (auto simp: create_group_def begin_session_def Let_def set_groups_def
            set_members_def db_commit_def get_members_def)
    qed
  qed
  from 1 2 3 show ?thesis by blast
qed

theorem quantity_counts_members_witness:
  "initial ex_empty \<and> run ex_trace ex_empty = Some ex_final \<and>
   map g_quantity (groups ex_final) = [1] \<and>
   map m_group_id (members ex_final) = [1] \<and>
   step (Call (AddMember 1 12 11)) ex_final = Some ex_after_add \<and>
   map g_quantity (groups ex_after_add) = [2] \<and>
   map m_group_id (members ex_after_add) = [1, 1] \<and>
   fst (create_group (begin_session ex_final) 2 ''G2'' 20) =
     Inr \<lparr>g_id = 2, g_name = ''G2'', g_leader_id = 20, g_quantity = 1, g_thesis_id = None\<rparr> \<and>
   get_members (snd (create_group (begin_session ex_final) 2 ''G2'' 20)) 2 =
     [\<lparr>m_group_id = 2, m_student_id = 20, m_is_leader = True\<rparr>]"
  using quantity_counts_members [OF ex_empty_initial ex_trace_runs,
      where e = "Call (AddMember 1 12 11)" and st' = ex_after_add and new_id = 2
        and name = "''G2''" and user_id = 20
        and g = "\<lparr>g_id = 2, g_name = ''G2'', g_leader_id = 20, g_quantity = 1,
                  g_thesis_id = None\<rparr>"]
    ex_empty_initial ex_trace_runs ex_add_steps
  by (simp add: ex_final_def ex_after_add_def create_group_def begin_session_def Let_def)

section \<open>One group per student\<close>

text \<open>
  C6. In every reachable store no student has two member rows, and no step creates a
  second one. \<open>create_group\<close> fails with 400 when the caller has a member row in any
  group. \<open>add_member\<close> never succeeds for a student who has a member row in any group:
  it fails with 400 as soon as the group is found and the caller is its leader (the
  checks for the group and for the leader come first and fail with 404 and 403).
\<close>

theorem one_group_per_student_invariant:
  assumes "initial st0" and "run es st0 = Some st"
  shows "distinct (map m_student_id (members st)) \<and>
         (step e st = Some st' \<longrightarrow> distinct (map m_student_id (members st'))) \<and>
         (user_id \<in> m_student_id ` set (members (pending db)) \<longrightarrow>
            create_group db new_id name user_id = (Inl HTTP_400_BAD_REQUEST, db)) \<and>
         (student_id \<in> m_student_id ` set (members (pending db)) \<longrightarrow>
            (\<exists>err. add_member db group_id student_id leader_id = (Inl err, db)) \<and>
            (find (\<lambda>g. g_id g = group_id) (groups (pending db)) = Some g \<and>
             g_leader_id g = leader_id \<longrightarrow>
               add_member db group_id student_id leader_id = (Inl HTTP_400_BAD_REQUEST, db)))"
proof -
  from reachable_consistent [OF assms] have c: "consistent st" .
  then have 1: "distinct (map m_student_id (members st))" by (simp add: inv_defs)
  have 2: "distinct (map m_student_id (members st'))" if "step e st = Some st'"
    using step_consistent [OF c that] by (simp add: inv_defs)
  have 3: "create_group db new_id name user_id = (Inl HTTP_400_BAD_REQUEST, db)"
    if "user_id \<in> m_student_id ` set (members (pending db))"
  proof -
    from that have "first_idx (\<lambda>m. m_student_id m = user_id) (members (pending db)) \<noteq> None"
      by (auto simp: first_idx_None)
    then show ?thesis by (auto simp: create_group_def)
  qed
  have 4: "(\<exists>err. add_member db group_id student_id leader_id = (Inl err, db)) \<and>
      (find (\<lambda>g. g_id g = group_id) (groups (pending db)) = Some g \<and>
       g_leader_id g = leader_id \<longrightarrow>
         add_member db group_id student_id leader_id = (Inl HTTP_400_BAD_REQUEST, db))"
    if "student_id \<in> m_student_id ` set (members (pending db))"
  proof -
    from that have m: "is_member_of_any_group db student_id"
      by (auto simp: is_member_of_any_group_def first_idx_None)
    show ?thesis
    proof (cases "first_idx (\<lambda>g. g_id g = group_id) (groups (pending db))")
      case None
      then show ?thesis by (simp add: add_member_def find_first_idx)
    next
      case (Some gi)
      with m show ?thesis by (auto simp: add_member_def find_first_idx Let_def)
    qed
  qed
  from 1 2 3 4 show ?thesis by blast
qed

theorem one_group_per_student_invariant_witness:
  "initial ex_empty \<and> run ex_trace ex_empty = Some ex_final \<and>
   distinct (map m_student_id (members ex_final)) \<and>
   step (Call (AddMember 1 12 11)) ex_final = Some ex_after_add \<and>
   distinct (map m_student_id (members ex_after_add)) \<and>
   create_group ex_db 3 ''G3'' 11 = (Inl HTTP_400_BAD_REQUEST, ex_db) \<and>
   add_member ex_db 1 21 10 = (Inl HTTP_400_BAD_REQUEST, ex_db) \<and>
   add_member ex_db 9 21 10 = (Inl HTTP_404_NOT_FOUND, ex_db)"
  using one_group_per_student_invariant [OF ex_empty_initial ex_trace_runs,
      where e = "Call (AddMember 1 12 11)" and st' = ex_after_add and db = ex_db
        and user_id = 11 and new_id = 3 and name = "''G3''" and student_id = 21
        and group_id = 1 and leader_id = 10 and g = "groups ex_store ! 0"]
    ex_empty_initial ex_trace_runs ex_add_steps
  by (simp add: ex_final_def ex_after_add_def ex_db_def ex_store_def begin_session_def
      add_member_def)

section \<open>One leader per group\<close>

text \<open>
  C7. In every reachable store, and after every further step (so after every
  \<open>create_group\<close> and every \<open>transfer_leader\<close>), each group has exactly one member row
  with \<open>is_leader = True\<close>, and it is the row of the student in the group's
  \<open>leader_id\<close>. \<open>transfer_leader\<close> fails with 404 when no group has the id; otherwise
  with 403 when \<open>cur\<close> is not the leader of the group found; otherwise with 404 when
  \<open>new\<close> has no row in the group; otherwise (the old leader has a row in the group, as
  in every reachable store) it sets the flag of the old leader's row to \<open>False\<close>, the flag
  of the new leader's row to \<open>True\<close> and the group's leader to \<open>new\<close>, and commits.
\<close>

theorem one_leader_per_group:
  assumes "initial st0" and "run es st0 = Some st"
  shows "(\<forall>x\<in>set (groups st). leaders_of st (g_id x) = [g_leader_id x]) \<and>
         (step e st = Some st' \<longrightarrow>
            (\<forall>x\<in>set (groups st'). leaders_of st' (g_id x) = [g_leader_id x])) \<and>
         (group_id \<notin> g_id ` set (groups (pending db)) \<longrightarrow>
            transfer_leader db group_id new cur = (Inl HTTP_404_NOT_FOUND, db)) \<and>
         (find (\<lambda>g. g_id g = group_id) (groups (pending db)) = Some g \<longrightarrow>
            (g_leader_id g \<noteq> cur \<longrightarrow>
               transfer_leader db group_id new cur = (Inl HTTP_403_FORBIDDEN, db)) \<and>
            (g_leader_id g = cur \<and>
             (\<forall>m\<in>set (members (pending db)).
                \<not> (m_student_id m = new \<and> m_group_id m = group_id)) \<longrightarrow>
               transfer_leader db group_id new cur = (Inl HTTP_404_NOT_FOUND, db)) \<and>
            (g_leader_id g = cur \<and> pending db = st \<longrightarrow>
               (\<exists>m\<in>set (members (pending db)).
                  m_student_id m = cur \<and> m_group_id m = group_id)) \<and>
            (g_leader_id g = cur \<and>
             (\<exists>m\<in>set (members (pending db)). m_student_id m = new \<and> m_group_id m = group_id) \<and>
             (\<exists>m\<in>set (members (pending db)). m_student_id m = cur \<and> m_group_id m = group_id)
             \<longrightarrow>
               (\<exists>gi ci ni db'.
                  first_idx (\<lambda>g. g_id g = group_id) (groups (pending db)) = Some gi \<and>
                  first_idx (\<lambda>m. m_student_id m = cur \<and> m_group_id m = group_id)
                    (members (pending db)) = Some ci \<and>
                  first_idx (\<lambda>m. m_student_id m = new \<and> m_group_id m = group_id)
                    (members (pending db)) = Some ni \<and>
                  transfer_leader db group_id new cur = (Inr (), db') \<and>
                  pending db' = (pending db)
                    \<lparr>members := (members (pending db))
                       [ci := (members (pending db) ! ci)\<lparr>m_is_leader := False\<rparr>,
                        ni := (members (pending db) ! ni)\<lparr>m_is_leader := True\<rparr>],
                     groups := (groups (pending db))[gi := g\<lparr>g_leader_id := new\<rparr>]\<rparr> \<and>
                  committed db' = pending db')))"
proof -
  let ?G = "first_idx (\<lambda>g. g_id g = group_id) (groups (pending db))"
  let ?C = "first_idx (\<lambda>m. m_student_id m = cur \<and> m_group_id m = group_id)
              (members (pending db))"
  let ?N = "first_idx (\<lambda>m. m_student_id m = new \<and> m_group_id m = group_id)
              (members (pending db))"
  from reachable_consistent [OF assms] have c: "consistent st" .
  have 1: "\<forall>x\<in>set (groups st). leaders_of st (g_id x) = [g_leader_id x]"
    using consistent_leaders [OF c] by blast
  have 2: "\<forall>x\<in>set (groups st'). leaders_of st' (g_id x) = [g_leader_id x]"
    if "step e st = Some st'"
    using consistent_leaders [OF step_consistent [OF c that]] by blast
  have 3: "transfer_leader db group_id new cur = (Inl HTTP_404_NOT_FOUND, db)"
    if "group_id \<notin> g_id ` set (groups (pending db))"
    using that by (simp add: transfer_leader_def group_lookup_None)
  have 4: "(g_leader_id g \<noteq> cur \<longrightarrow>
               transfer_leader db group_id new cur = (Inl HTTP_403_FORBIDDEN, db)) \<and>
            (g_leader_id g = cur \<and>
             (\<forall>m\<in>set (members (pending db)).
                \<not> (m_student_id m = new \<and> m_group_id m = group_id)) \<longrightarrow>
               transfer_leader db group_id new cur = (Inl HTTP_404_NOT_FOUND, db)) \<and>
            (g_leader_id g = cur \<and> pending db = st \<longrightarrow>
               (\<exists>m\<in>set (members (pending db)).
                  m_student_id m = cur \<and> m_group_id m = group_id)) \<and>
            (g_leader_id g = cur \<and>
             (\<exists>m\<in>set (members (pending db)). m_student_id m = new \<and> m_group_id m = group_id) \<and>
             (\<exists>m\<in>set (members (pending db)). m_student_id m = cur \<and> m_group_id m = group_id)
             \<longrightarrow>
               (\<exists>gi ci ni db'.
                  ?G = Some gi \<and> ?C = Some ci \<and> ?N = Some ni \<and>
                  transfer_leader db group_id new cur = (Inr (), db') \<and>
                  pending db' = (pending db)
                    \<lparr>members := (members (pending db))
                       [ci := (members (pending db) ! ci)\<lparr>m_is_leader := False\<rparr>,
                        ni := (members (pending db) ! ni)\<lparr>m_is_leader := True\<rparr>],
                     groups := (groups (pending db))[gi := g\<lparr>g_leader_id := new\<rparr>]\<rparr> \<and>
                  committed db' = pending db'))"
    if f: "find (\<lambda>g. g_id g = group_id) (groups (pending db)) = Some g"
  proof -
    from first_idx_of_find [OF f] obtain gi where gi: "?G = Some gi"
      and g: "groups (pending db) ! gi = g" by blast
    from first_idx_Some [OF gi] have gin: "g \<in> set (groups (pending db))" "g_id g = group_id"
      using g by auto
    have a: "transfer_leader db group_id new cur = (Inl HTTP_403_FORBIDDEN, db)"
      if "g_leader_id g \<noteq> cur"
      using that gi g by (simp add: transfer_leader_def)
    have b: "transfer_leader db group_id new cur = (Inl HTTP_404_NOT_FOUND, db)"
      if "g_leader_id g = cur" "\<forall>m\<in>set (members (pending db)).
                \<not> (m_student_id m = new \<and> m_group_id m = group_id)"
    proof -
      from that(2) have "?N = None" by (simp add: first_idx_None)
      with that(1) gi g show ?thesis by (simp add: transfer_leader_def Let_def)
    qed
    have d: "\<exists>m\<in>set (members (pending db)). m_student_id m = cur \<and> m_group_id m = group_id"
      if "g_leader_id g = cur" "pending db = st"
    proof -
      from c that(2) gin(1) have "\<exists>m\<in>set (members (pending db)).
          m_group_id m = g_id g \<and> m_student_id m = g_leader_id g"
        by (simp add: inv_defs)
      with that(1) gin(2) show ?thesis by auto
    qed
    have s: "\<exists>gi ci ni db'.
                  ?G = Some gi \<and> ?C = Some ci \<and> ?N = Some ni \<and>
                  transfer_leader db group_id new cur = (Inr (), db') \<and>
                  pending db' = (pending db)
                    \<lparr>members := (members (pending db))
                       [ci := (members (pending db) ! ci)\<lparr>m_is_leader := False\<rparr>,
                        ni := (members (pending db) ! ni)\<lparr>m_is_leader := True\<rparr>],
                     groups := (groups (pending db))[gi := g\<lparr>g_leader_id := new\<rparr>]\<rparr> \<and>
                  committed db' = pending db'"
      if l: "g_leader_id g = cur"
        and n: "\<exists>m\<in>set (members (pending db)). m_student_id m = new \<and> m_group_id m = group_id"
        and o: "\<exists>m\<in>set (members (pending db)). m_student_id m = cur \<and> m_group_id m = group_id"
    proof -
      from n obtain ni where ni: "?N = Some ni"
        by (cases ?N) (auto simp: first_idx_None)
      from o obtain ci where ci: "?C = Some ci"
        by (cases ?C) (auto simp: first_idx_None)
      from first_idx_Some [OF ci] have cl: "ci < length (members (pending db))" by simp
      let ?ms = "members (pending db)"
      have row: "(?ms[ci := (?ms ! ci)\<lparr>m_is_leader := False\<rparr>] ! ni)\<lparr>m_is_leader := True\<rparr> =
          (?ms ! ni)\<lparr>m_is_leader := True\<rparr>"
        using cl by (cases "ni = ci") simp_all
      have "transfer_leader db group_id new cur =
          (Inr (), db_commit (set_groups ((groups (pending db))[gi := g\<lparr>g_leader_id := new\<rparr>])
             (set_members (?ms[ci := (?ms ! ci)\<lparr>m_is_leader := False\<rparr>,
                               ni := (?ms ! ni)\<lparr>m_is_leader := True\<rparr>]) db)))"
        using gi g l ni ci row
        by (simp add: transfer_leader_def Let_def set_members_def set_groups_def)
      then show ?thesis using gi ci ni
        by (simp add: set_members_def set_groups_def db_commit_def)
    qed
    from a b d s show ?thesis by blast
  qed
  from 1 2 3 4 show ?thesis by blast
qed

theorem one_leader_per_group_witness:
  "initial ex_empty \<and> run ex_trace ex_empty = Some ex_final \<and>
   leaders_of ex_final 1 = [11] \<and>
   step (Call (AddMember 1 12 11)) ex_final = Some ex_after_add \<and>
   leaders_of ex_after_add 1 = [11] \<and>
   transfer_leader ex_db 9 11 10 = (Inl HTTP_404_NOT_FOUND, ex_db) \<and>
   transfer_leader ex_db 1 10 11 = (Inl HTTP_403_FORBIDDEN, ex_db) \<and>
   transfer_leader ex_db 1 21 10 = (Inl HTTP_404_NOT_FOUND, ex_db) \<and>
   fst (transfer_leader ex_db 1 11 10) = Inr () \<and>
   map m_is_leader (members (committed (snd (transfer_leader ex_db 1 11 10)))) =
     [False, True, True, False, False, False] \<and>
   map g_leader_id (groups (committed (snd (transfer_leader ex_db 1 11 10)))) = [11, 20] \<and>
   fst (transfer_leader (begin_session ex_final) 1 11 11) = Inr ()"
  using one_leader_per_group [OF ex_empty_initial ex_trace_runs,
      where e = "Call (AddMember 1 12 11)" and st' = ex_after_add and db = ex_db
        and group_id = 9 and new = 11 and cur = 10 and g = "groups ex_store ! 0"]
    one_leader_per_group [OF ex_empty_initial ex_trace_runs,
      where e = "Call (AddMember 1 12 11)" and st' = ex_after_add and db = ex_db
        and group_id = 1 and new = 10 and cur = 11 and g = "groups ex_store ! 0"]
    one_leader_per_group [OF ex_empty_initial ex_trace_runs,
      where e = "Call (AddMember 1 12 11)" and st' = ex_after_add and db = ex_db
        and group_id = 1 and new = 21 and cur = 10 and g = "groups ex_store ! 0"]
    one_leader_per_group [OF ex_empty_initial ex_trace_runs,
      where e = "Call (AddMember 1 12 11)" and st' = ex_after_add and db = ex_db
        and group_id = 1 and new = 11 and cur = 10 and g = "groups ex_store ! 0"]
    one_leader_per_group [OF ex_empty_initial ex_trace_runs,
      where e = "Call (AddMember 1 12 11)" and st' = ex_after_add
        and db = "begin_session ex_final"
        and group_id = 1 and new = 11 and cur = 11 and g = "groups ex_final ! 0"]
    ex_empty_initial ex_trace_runs ex_add_steps
  by (auto simp: ex_final_def ex_after_add_def ex_db_def ex_store_def begin_session_def
      leaders_of_def)

end
